theory Spec2Isabelle
  imports Main "HOL-Library.AList" "HOL-Library.Sublist"
begin

section \<open>Configuration values\<close>

text \<open>
  A parsed YAML configuration is a tree of Python values. A mapping is an
  association list in insertion order (the loader produces \<^verbatim>\<open>OrderedDict\<close>s and
  the code iterates over \<^verbatim>\<open>items()\<close>); keys are strings. Floating point numbers
  are left out: nothing modelled below looks inside a number.
\<close>

datatype val = VNone | VBool bool | VInt int | VStr string
  | VList "val list" | VDict "(string \<times> val) list"

type_synonym dict = "(string \<times> val) list"

text \<open>Exceptions that the modelled code raises or catches.\<close>

datatype py_error = Invalid string | KeyError string | AttributeError | TypeError
  | IntegrationNotFound | ImportError

text \<open>Python truthiness (\<^verbatim>\<open>not x\<close>, \<^verbatim>\<open>if x:\<close>).\<close>

fun truthy :: "val \<Rightarrow> bool" where
  "truthy VNone = False"
| "truthy (VBool b) = b"
| "truthy (VInt i) = (i \<noteq> 0)"
| "truthy (VStr s) = (s \<noteq> [])"
| "truthy (VList l) = (l \<noteq> [])"
| "truthy (VDict d) = (d \<noteq> [])"

text \<open>\<^verbatim>\<open>d.get(k)\<close>: the value under \<open>k\<close>, \<^verbatim>\<open>None\<close> when the key is absent.
  \<^verbatim>\<open>d[k] = v\<close> is \<^const>\<open>AList.update\<close>: it replaces the value in place or appends
  a new key at the end.\<close>

definition dict_get :: "dict \<Rightarrow> string \<Rightarrow> val" where
  "dict_get d k = (case map_of d k of None \<Rightarrow> VNone | Some v \<Rightarrow> v)"

text \<open>Modelled from the spec: \<^verbatim>\<open>cv.ensure_list\<close> of
  \<^verbatim>\<open>openpeerpower/helpers/config_validation.py\<close> is not among the sources. The spec
  calls it coercion to a list: a list is itself, null is the empty list, any
  other value is the one-element list holding it.\<close>

fun ensure_list :: "val \<Rightarrow> val list" where
  "ensure_list VNone = []"
| "ensure_list (VList l) = l"
| "ensure_list v = [v]"

text \<open>Keys of \<^verbatim>\<open>openpeerpower/const.py\<close> and \<^verbatim>\<open>openpeerpower/core.py\<close> that the
  package merger reads. \<^verbatim>\<open>CONF_CORE\<close> is the name of the core section, which
  \<^verbatim>\<open>_write_default_config\<close> writes as the header \<^verbatim>\<open>openpeerpower:\<close>.\<close>

definition CONF_CORE :: string where
  "CONF_CORE = ''openpeerpower''"

definition CONF_PACKAGES :: string where
  "CONF_PACKAGES = ''packages''"

section \<open>Integrations\<close>

text \<open>
  A component or platform module, as far as the configuration code inspects it:
  its optional schema attributes, each a validator that returns the validated
  value or raises. \<open>CONFIG_SCHEMA_domain_str\<close> is
  \<^verbatim>\<open>str(module.CONFIG_SCHEMA.schema[module.DOMAIN])\<close>, absent when that lookup raises
  \<^verbatim>\<open>AttributeError\<close> or \<^verbatim>\<open>KeyError\<close>.
\<close>

type_synonym validator = "val \<Rightarrow> py_error + val"

record py_module =
  PLATFORM_SCHEMA :: "validator option"
  PLATFORM_SCHEMA_BASE :: "validator option"
  CONFIG_SCHEMA :: "validator option"
  CONFIG_SCHEMA_domain_str :: "string option"

text \<open>An integration handle: \<open>get_component\<close> and \<open>get_platform\<close> give the module,
  or nothing when the import raises \<^verbatim>\<open>ImportError\<close>. \<^verbatim>\<open>async_get_integration\<close> is a
  function from the domain name, with no result when it raises
  \<^verbatim>\<open>IntegrationNotFound\<close>.\<close>

record integration =
  domain :: string
  get_component :: "py_module option"
  get_platform :: "string \<Rightarrow> py_module option"

type_synonym integrations = "string \<Rightarrow> integration option"

text \<open>\<^verbatim>\<open>_identify_config_schema\<close>, first component of the returned pair: the merge
  type \<^verbatim>\<open>'dict'\<close>, \<^verbatim>\<open>'list'\<close> or \<^verbatim>\<open>''\<close>, or \<^verbatim>\<open>None\<close>.\<close>

definition identify_config_schema :: "py_module \<Rightarrow> string option" where
  "identify_config_schema module =
     (case CONFIG_SCHEMA_domain_str module of
        None \<Rightarrow> None
      | Some t_schema \<Rightarrow>
          if prefix ''{'' t_schema \<or> sublist ''schema_with_slug_keys'' t_schema
          then Some ''dict''
          else if prefix ''['' t_schema \<or> prefix ''All(<function ensure_list'' t_schema
          then Some ''list''
          else Some '''')"

section \<open>Package merger\<close>

text \<open>
  \<^verbatim>\<open>_recursive_merge(conf, package)\<close> mutates \<open>conf\<close> and returns \<^verbatim>\<open>False\<close> or the
  conflicting key. The model returns the mutated \<open>conf\<close> together with the
  outcome; the return value of type \<^verbatim>\<open>Union[bool, str]\<close> is \<open>None\<close> for \<^verbatim>\<open>False\<close> and
  \<open>Some key\<close> for a key. \<open>conf\<close> is a value, not a dictionary, because the
  recursive call passes \<^verbatim>\<open>conf[key]\<close>, whatever it holds: \<^verbatim>\<open>.get\<close> on anything but
  a dictionary raises \<^verbatim>\<open>AttributeError\<close>. The third argument is the local
  variable \<open>error\<close>.
\<close>

function (sequential) recursive_merge_loop ::
  "val \<Rightarrow> dict \<Rightarrow> string option \<Rightarrow> val \<times> (py_error + string option)" where
  "recursive_merge_loop conf [] error = (conf, Inr error)"
| "recursive_merge_loop conf ((key, pack_conf) # rest) error =
     (case pack_conf of
        VDict d \<Rightarrow>
          (if d = [] then recursive_merge_loop conf rest error
           else (case conf of
                   VDict c \<Rightarrow>
                     (case recursive_merge_loop
                             (case map_of c key of None \<Rightarrow> VDict [] | Some v \<Rightarrow> v) d None of
                        (sub, Inl e) \<Rightarrow> (VDict (AList.update key sub c), Inl e)
                      | (sub, Inr error') \<Rightarrow>
                          recursive_merge_loop (VDict (AList.update key sub c)) rest error')
                 | _ \<Rightarrow> (conf, Inl AttributeError)))
      | VList l \<Rightarrow>
          (if l = [] then recursive_merge_loop conf rest error
           else (case conf of
                   VDict c \<Rightarrow>
                     recursive_merge_loop
                       (VDict (AList.update key
                          (VList (ensure_list (dict_get c key) @ ensure_list pack_conf)) c))
                       rest error
                 | _ \<Rightarrow> (conf, Inl AttributeError)))
      | _ \<Rightarrow>
          (case conf of
             VDict c \<Rightarrow>
               (if dict_get c key \<noteq> VNone then (conf, Inr (Some key))
                else recursive_merge_loop (VDict (AList.update key pack_conf c)) rest error)
           | _ \<Rightarrow> (conf, Inl AttributeError)))"
  by pat_completeness auto
termination
  by (relation "measure (\<lambda>(conf, package, error). size_list (size_prod (\<lambda>_. 0) size) package)")
     auto

definition recursive_merge :: "val \<Rightarrow> dict \<Rightarrow> val \<times> (py_error + string option)" where
  "recursive_merge conf package = recursive_merge_loop conf package None"

text \<open>
  The state of \<^verbatim>\<open>merge_packages_config\<close>: the configuration it mutates and the
  calls it has made to its \<^verbatim>\<open>_log_pkg_error\<close> argument, each with the package,
  the component key and the message. The callable is a parameter, as in the
  source; it says whether the call raises (the default one indexes
  \<^verbatim>\<open>config[CONF_CORE][CONF_PACKAGES]\<close>).
\<close>

record mstate =
  config :: dict
  pkg_errors :: "(string \<times> string \<times> string) list"

type_synonym pkg_logger = "string \<Rightarrow> string \<Rightarrow> dict \<Rightarrow> string \<Rightarrow> py_error option"

definition log_pkg_error ::
  "pkg_logger \<Rightarrow> string \<Rightarrow> string \<Rightarrow> string \<Rightarrow> mstate \<Rightarrow> mstate \<times> py_error option" where
  "log_pkg_error logger package component message s =
     (s\<lparr>pkg_errors := pkg_errors s @ [(package, component, message)]\<rparr>,
      logger package component (config s) message)"

text \<open>The two places that append to a list-valued entry:
  \<^verbatim>\<open>config[comp_name] = cv.ensure_list(config.get(comp_name))\<close> followed by
  \<^verbatim>\<open>config[comp_name].extend(cv.ensure_list(comp_conf))\<close>, after the check that
  skips a falsy fragment.\<close>

definition extend_entry :: "string \<Rightarrow> val \<Rightarrow> mstate \<Rightarrow> mstate \<times> py_error option" where
  "extend_entry comp_name comp_conf s =
     (if \<not> truthy comp_conf then (s, None)
      else (s\<lparr>config := AList.update comp_name
                 (VList (ensure_list (dict_get (config s) comp_name) @ ensure_list comp_conf))
                 (config s)\<rparr>, None))"

text \<open>The rest of the loop body, from \<^verbatim>\<open>if comp_conf is None\<close> on. The third
  \<^verbatim>\<open>isinstance(comp_conf, dict)\<close> test of the source repeats the first and cannot
  fail.\<close>

definition merge_dict_entry ::
  "pkg_logger \<Rightarrow> string \<Rightarrow> string \<Rightarrow> val \<Rightarrow> mstate \<Rightarrow> mstate \<times> py_error option" where
  "merge_dict_entry logger pack_name comp_name comp_conf s =
     (case (if comp_conf = VNone then VDict [] else comp_conf) of
        VDict fragment \<Rightarrow>
          (let s1 = (if map_of (config s) comp_name = None \<or> dict_get (config s) comp_name = VNone
                     then s\<lparr>config := AList.update comp_name (VDict []) (config s)\<rparr> else s)
           in case dict_get (config s1) comp_name of
                VDict c \<Rightarrow>
                  (case recursive_merge (VDict c) fragment of
                     (conf, Inl e) \<Rightarrow>
                       (s1\<lparr>config := AList.update comp_name conf (config s1)\<rparr>, Some e)
                   | (conf, Inr error) \<Rightarrow>
                       (let s2 = s1\<lparr>config := AList.update comp_name conf (config s1)\<rparr>
                        in case error of
                             None \<Rightarrow> (s2, None)
                           | Some key \<Rightarrow>
                               if key = [] then (s2, None)
                               else log_pkg_error logger pack_name comp_name
                                      (''has duplicate key '' @ [CHR 0x27] @ key @ [CHR 0x27]) s2))
              | _ \<Rightarrow> log_pkg_error logger pack_name comp_name
                       ''cannot be merged. Dict expected in main config.'' s1)
      | _ \<Rightarrow> log_pkg_error logger pack_name comp_name
               ''cannot be merged. Expected a dict.'' s)"

text \<open>The body of the inner loop of \<^verbatim>\<open>merge_packages_config\<close>, for one
  \<open>(comp_name, comp_conf)\<close> of a package. The domain is
  \<^verbatim>\<open>comp_name.split(' ')[0]\<close>.\<close>

definition merge_component ::
  "integrations \<Rightarrow> pkg_logger \<Rightarrow> string \<Rightarrow> string \<times> val \<Rightarrow> mstate \<Rightarrow> mstate \<times> py_error option"
  where
  "merge_component async_get_integration logger pack_name item s =
     (case item of (comp_name, comp_conf) \<Rightarrow>
        if comp_name = CONF_CORE then (s, None)
        else
          (case async_get_integration (takeWhile (\<lambda>ch. ch \<noteq> CHR '' '') comp_name) of
             None \<Rightarrow> log_pkg_error logger pack_name comp_name ''does not exist'' s
           | Some integration \<Rightarrow>
               (case get_component integration of
                  None \<Rightarrow> log_pkg_error logger pack_name comp_name ''unable to import'' s
                | Some component \<Rightarrow>
                    if PLATFORM_SCHEMA component \<noteq> None
                    then extend_entry comp_name comp_conf s
                    else if CONFIG_SCHEMA component \<noteq> None
                            \<and> identify_config_schema component = Some ''list''
                    then extend_entry comp_name comp_conf s
                    else merge_dict_entry logger pack_name comp_name comp_conf s)))"

fun merge_package ::
  "integrations \<Rightarrow> pkg_logger \<Rightarrow> string \<Rightarrow> dict \<Rightarrow> mstate \<Rightarrow> mstate \<times> py_error option" where
  "merge_package agi logger pack_name [] s = (s, None)"
| "merge_package agi logger pack_name (item # items) s =
     (case merge_component agi logger pack_name item s of
        (s', Some e) \<Rightarrow> (s', Some e)
      | (s', None) \<Rightarrow> merge_package agi logger pack_name items s')"

fun merge_packages_loop ::
  "integrations \<Rightarrow> pkg_logger \<Rightarrow> dict \<Rightarrow> mstate \<Rightarrow> mstate \<times> py_error option" where
  "merge_packages_loop agi logger [] s = (s, None)"
| "merge_packages_loop agi logger ((pack_name, pack_conf) # packages) s =
     (case pack_conf of
        VDict items \<Rightarrow>
          (case merge_package agi logger pack_name items s of
             (s', Some e) \<Rightarrow> (s', Some e)
           | (s', None) \<Rightarrow> merge_packages_loop agi logger packages s')
      | _ \<Rightarrow> (s, Some AttributeError))"

text \<open>Modelled from the spec: \<^verbatim>\<open>cv.schema_with_slug_keys\<close>, \<^verbatim>\<open>cv.string\<close> and the
  voluptuous schema objects that make up \<^verbatim>\<open>PACKAGES_CONFIG_SCHEMA\<close> are not among
  the sources. A slug is made of lowercase letters, digits and the underscore;
  the schema accepts a mapping whose keys are slugs and whose values are
  mappings from component keys to a dict, a list or null. The text of the
  error is not part of the spec.\<close>

definition is_slug :: "string \<Rightarrow> bool" where
  "is_slug s = list_all (\<lambda>ch. ch \<in> set ''abcdefghijklmnopqrstuvwxyz0123456789_'') s"

fun component_config_ok :: "val \<Rightarrow> bool" where
  "component_config_ok (VDict d) = True"
| "component_config_ok (VList l) = True"
| "component_config_ok VNone = True"
| "component_config_ok v = False"

fun package_ok :: "val \<Rightarrow> bool" where
  "package_ok (VDict items) = list_all (\<lambda>item. component_config_ok (snd item)) items"
| "package_ok v = False"

definition PACKAGES_CONFIG_SCHEMA :: "val \<Rightarrow> py_error + val" where
  "PACKAGES_CONFIG_SCHEMA packages =
     (case packages of
        VDict ps \<Rightarrow>
          if \<not> list_all (\<lambda>p. is_slug (fst p)) ps then Inl (Invalid ''invalid slug'')
          else if \<not> list_all (\<lambda>p. package_ok (snd p)) ps
          then Inl (Invalid ''invalid package'')
          else Inr packages
      | _ \<Rightarrow> Inl (Invalid ''expected dictionary''))"

text \<open>\<^verbatim>\<open>merge_packages_config(opp, config, packages, _log_pkg_error)\<close>: the final
  configuration, the calls to the logger and the exception that escaped, if
  any. The result of the schema call is discarded, as in the source.\<close>

definition merge_packages_config ::
  "integrations \<Rightarrow> dict \<Rightarrow> val \<Rightarrow> pkg_logger \<Rightarrow> mstate \<times> py_error option" where
  "merge_packages_config agi cfg packages logger =
     (case PACKAGES_CONFIG_SCHEMA packages of
        Inl e \<Rightarrow> (\<lparr>config = cfg, pkg_errors = []\<rparr>, Some e)
      | Inr validated \<Rightarrow>
          (case packages of
             VDict ps \<Rightarrow> merge_packages_loop agi logger ps \<lparr>config = cfg, pkg_errors = []\<rparr>
           | _ \<Rightarrow> (\<lparr>config = cfg, pkg_errors = []\<rparr>, Some AttributeError)))"

section \<open>Duplicate detection in the core schema\<close>

definition CONF_TYPE :: string where
  "CONF_TYPE = ''type''"

definition CONF_ID :: string where
  "CONF_ID = ''id''"

text \<open>Keys of a Python set are hashed and compared with \<^verbatim>\<open>==\<close>: lists and
  dictionaries are unhashable (\<^verbatim>\<open>TypeError\<close>), and a bool equals the integer 0
  or 1.\<close>

fun hashable :: "val \<Rightarrow> bool" where
  "hashable (VList l) = False"
| "hashable (VDict d) = False"
| "hashable v = True"

fun as_number :: "val \<Rightarrow> int option" where
  "as_number (VBool b) = Some (if b then 1 else 0)"
| "as_number (VInt i) = Some i"
| "as_number v = None"

definition py_eq :: "val \<Rightarrow> val \<Rightarrow> bool" where
  "py_eq a b = (case (as_number a, as_number b) of
                  (Some x, Some y) \<Rightarrow> x = y
                | _ \<Rightarrow> a = b)"

text \<open>\<^verbatim>\<open>'{}'.format(v)\<close> for a hashable value.\<close>

function nat_to_str :: "nat \<Rightarrow> string" where
  "nat_to_str n = (if n < 10 then [char_of (48 + n)]
                   else nat_to_str (n div 10) @ [char_of (48 + n mod 10)])"
  by pat_completeness auto
termination
  by (relation "measure (\<lambda>n. n)") auto

fun py_format :: "val \<Rightarrow> string" where
  "py_format VNone = ''None''"
| "py_format (VBool b) = (if b then ''True'' else ''False'')"
| "py_format (VInt i) = (if i < 0 then ''-'' @ nat_to_str (nat (- i)) else nat_to_str (nat i))"
| "py_format (VStr s) = s"
| "py_format v = []"

definition duplicate_auth_provider_message :: "val \<Rightarrow> string" where
  "duplicate_auth_provider_message t =
     ''Duplicate auth provider '' @ py_format t
       @ '' found. Please add unique IDs if you want to have the same auth provider twice''"

definition duplicate_mfa_module_message :: "val \<Rightarrow> string" where
  "duplicate_mfa_module_message t =
     ''Duplicate mfa module '' @ py_format t
       @ '' found. Please add unique IDs if you want to have the same mfa module twice''"

text \<open>The loop of \<^verbatim>\<open>_no_duplicate_auth_provider\<close>; the second argument is the set
  \<open>config_keys\<close>. An entry that is not a dictionary cannot be indexed with a
  string (\<^verbatim>\<open>TypeError\<close>); \<^verbatim>\<open>config[CONF_TYPE]\<close> raises \<^verbatim>\<open>KeyError\<close> when the key
  is absent.\<close>

fun no_duplicate_auth_provider_loop ::
  "val list \<Rightarrow> (val \<times> val) list \<Rightarrow> py_error option" where
  "no_duplicate_auth_provider_loop [] config_keys = None"
| "no_duplicate_auth_provider_loop (cfg # configs) config_keys =
     (case cfg of
        VDict d \<Rightarrow>
          (case map_of d CONF_TYPE of
             None \<Rightarrow> Some (KeyError CONF_TYPE)
           | Some t \<Rightarrow>
               if \<not> hashable t \<or> \<not> hashable (dict_get d CONF_ID) then Some TypeError
               else if list_ex (\<lambda>k. py_eq (fst k) t \<and> py_eq (snd k) (dict_get d CONF_ID))
                         config_keys
               then Some (Invalid (duplicate_auth_provider_message t))
               else no_duplicate_auth_provider_loop configs
                      ((t, dict_get d CONF_ID) # config_keys))
      | _ \<Rightarrow> Some TypeError)"

definition no_duplicate_auth_provider :: "val list \<Rightarrow> py_error + val list" where
  "no_duplicate_auth_provider configs =
     (case no_duplicate_auth_provider_loop configs [] of
        Some e \<Rightarrow> Inl e
      | None \<Rightarrow> Inr configs)"

text \<open>The loop of \<^verbatim>\<open>_no_duplicate_auth_mfa_module\<close>. The key is
  \<^verbatim>\<open>config.get(CONF_ID, config[CONF_TYPE])\<close>: the default is evaluated first, and
  it is used only when the id key is absent.\<close>

fun no_duplicate_auth_mfa_module_loop :: "val list \<Rightarrow> val list \<Rightarrow> py_error option" where
  "no_duplicate_auth_mfa_module_loop [] config_keys = None"
| "no_duplicate_auth_mfa_module_loop (cfg # configs) config_keys =
     (case cfg of
        VDict d \<Rightarrow>
          (case map_of d CONF_TYPE of
             None \<Rightarrow> Some (KeyError CONF_TYPE)
           | Some t \<Rightarrow>
               (let key = (case map_of d CONF_ID of None \<Rightarrow> t | Some i \<Rightarrow> i)
                in if \<not> hashable key then Some TypeError
                   else if list_ex (\<lambda>k. py_eq k key) config_keys
                   then Some (Invalid (duplicate_mfa_module_message t))
                   else no_duplicate_auth_mfa_module_loop configs (key # config_keys)))
      | _ \<Rightarrow> Some TypeError)"

definition no_duplicate_auth_mfa_module :: "val list \<Rightarrow> py_error + val list" where
  "no_duplicate_auth_mfa_module configs =
     (case no_duplicate_auth_mfa_module_loop configs [] of
        Some e \<Rightarrow> Inl e
      | None \<Rightarrow> Inr configs)"

text \<open>The validators that \<^verbatim>\<open>CORE_CONFIG_SCHEMA\<close> puts under
  \<^verbatim>\<open>CONF_AUTH_PROVIDERS\<close> and \<^verbatim>\<open>CONF_AUTH_MFA_MODULES\<close>:
  \<^verbatim>\<open>vol.All(cv.ensure_list, [entry_schema], check)\<close> runs its three validators in
  order, each on the result of the one before, and the list schema validates
  every element. The entry schemas (\<^verbatim>\<open>AUTH_PROVIDER_SCHEMA\<close> and
  \<^verbatim>\<open>MULTI_FACTOR_AUTH_MODULE_SCHEMA\<close>, extended) are parameters.\<close>

fun validate_each :: "validator \<Rightarrow> val list \<Rightarrow> py_error + val list" where
  "validate_each schema [] = Inr []"
| "validate_each schema (v # vs) =
     (case schema v of
        Inl e \<Rightarrow> Inl e
      | Inr v' \<Rightarrow> (case validate_each schema vs of Inl e \<Rightarrow> Inl e | Inr vs' \<Rightarrow> Inr (v' # vs')))"

definition auth_providers_schema :: "validator \<Rightarrow> val \<Rightarrow> py_error + val list" where
  "auth_providers_schema entry_schema v =
     (case validate_each entry_schema (ensure_list v) of
        Inl e \<Rightarrow> Inl e
      | Inr configs \<Rightarrow> no_duplicate_auth_provider configs)"

definition auth_mfa_modules_schema :: "validator \<Rightarrow> val \<Rightarrow> py_error + val list" where
  "auth_mfa_modules_schema entry_schema v =
     (case validate_each entry_schema (ensure_list v) of
        Inl e \<Rightarrow> Inl e
      | Inr configs \<Rightarrow> no_duplicate_auth_mfa_module configs)"

text \<open>The keys the two checks build, for stating what they accept.\<close>

definition auth_provider_key :: "val \<Rightarrow> val \<times> val" where
  "auth_provider_key cfg =
     (case cfg of VDict d \<Rightarrow> (dict_get d CONF_TYPE, dict_get d CONF_ID) | _ \<Rightarrow> (VNone, VNone))"

definition mfa_module_key :: "val \<Rightarrow> val" where
  "mfa_module_key cfg =
     (case cfg of
        VDict d \<Rightarrow> (case map_of d CONF_ID of None \<Rightarrow> dict_get d CONF_TYPE | Some i \<Rightarrow> i)
      | _ \<Rightarrow> VNone)"

definition entry_type :: "val \<Rightarrow> val" where
  "entry_type cfg = (case cfg of VDict d \<Rightarrow> dict_get d CONF_TYPE | _ \<Rightarrow> VNone)"

text \<open>What the entry schemas leave: a dictionary whose type is a string and
  whose id, when present, is a string (the declared key type of the source is
  \<^verbatim>\<open>Tuple[str, Optional[str]]\<close>).\<close>

fun is_str :: "val \<Rightarrow> bool" where
  "is_str (VStr s) = True"
| "is_str v = False"

definition auth_entry_typed :: "val \<Rightarrow> bool" where
  "auth_entry_typed cfg =
     (case cfg of
        VDict d \<Rightarrow>
          (case map_of d CONF_TYPE of None \<Rightarrow> False | Some t \<Rightarrow> is_str t)
          \<and> (case map_of d CONF_ID of None \<Rightarrow> True | Some i \<Rightarrow> is_str i)
      | _ \<Rightarrow> False)"

section \<open>Error reporter\<close>

text \<open>
  The part of \<open>opp\<close> that error reporting touches:
  \<^verbatim>\<open>opp.data.get(DATA_PERSISTENT_ERRORS)\<close>, the calls made to
  \<^verbatim>\<open>persistent_notification.async_create\<close> (message, title, notification id) and
  the calls \<^verbatim>\<open>_LOGGER.error(_format_config_error(ex, domain, config))\<close>, recorded
  by their arguments (the rendering of the log line is not modelled).
\<close>

record opp_state =
  persistent_errors :: "(string \<times> bool) list option"
  notifications :: "(string \<times> string \<times> string) list"
  error_log :: "(py_error \<times> string \<times> val) list"

definition HA_COMPONENT_URL :: "string \<Rightarrow> string \<Rightarrow> string" where
  "HA_COMPONENT_URL a b = ''['' @ a @ ''](https://open-peer-power.io/components/'' @ b @ ''/)''"

definition error_part :: "string \<times> bool \<Rightarrow> string" where
  "error_part item =
     (case item of (name, link) \<Rightarrow>
        if link
        then HA_COMPONENT_URL (map (\<lambda>ch. if ch = CHR ''_'' then CHR ''-'' else ch) name) name
        else name)"

definition setup_error_message :: "(string \<times> bool) list \<Rightarrow> string" where
  "setup_error_message errors =
     ''The following components and platforms could not be set up:'' @ [CHR 0x0A, CHR 0x0A]
       @ concat (map (\<lambda>item. '' - '' @ error_part item @ [CHR 0x0A]) errors)
       @ [CHR 0x0A] @ ''Please check your config.''"

definition async_notify_setup_error :: "opp_state \<Rightarrow> string \<Rightarrow> bool \<Rightarrow> opp_state" where
  "async_notify_setup_error opp component display_link =
     (let errors = (case persistent_errors opp of None \<Rightarrow> [] | Some es \<Rightarrow> es);
          errors' = AList.update component
                      (map_of errors component = Some True \<or> display_link) errors
      in opp\<lparr>persistent_errors := Some errors',
              notifications := notifications opp
                 @ [(setup_error_message errors', ''Invalid config'', ''invalid_config'')]\<rparr>)"

text \<open>A run of calls to \<^verbatim>\<open>async_notify_setup_error\<close>, in order.\<close>

fun notify_all :: "opp_state \<Rightarrow> (string \<times> bool) list \<Rightarrow> opp_state" where
  "notify_all opp [] = opp"
| "notify_all opp ((component, display_link) # calls) =
     notify_all (async_notify_setup_error opp component display_link) calls"

definition async_log_exception :: "py_error \<Rightarrow> string \<Rightarrow> val \<Rightarrow> opp_state \<Rightarrow> opp_state" where
  "async_log_exception ex dname cfg opp =
     (let opp' = async_notify_setup_error opp dname True
      in opp'\<lparr>error_log := error_log opp' @ [(ex, dname, cfg)]\<rparr>)"

section \<open>Component config validator\<close>

text \<open>
  \<^verbatim>\<open>config_per_platform\<close> and \<^verbatim>\<open>extract_domain_configs\<close> of
  \<^verbatim>\<open>openpeerpower/helpers\<close> are not among the sources; they are parameters:
  \<open>config_per_platform config domain\<close> is the sequence of pairs of an optional
  platform name and its entry, \<open>extract_domain_configs config domain\<close> the keys
  of \<open>config\<close> that belong to the domain.

  The loop over the platform entries: \<open>platforms\<close> is the list built so far.
  A schema that raises \<^verbatim>\<open>vol.Invalid\<close> is caught; any other exception escapes.
\<close>

fun process_platforms ::
  "integrations \<Rightarrow> string \<Rightarrow> validator \<Rightarrow> (string option \<times> val) list \<Rightarrow> val list
     \<Rightarrow> opp_state \<Rightarrow> opp_state \<times> (py_error + val list)" where
  "process_platforms agi dname component_platform_schema [] platforms opp = (opp, Inr platforms)"
| "process_platforms agi dname component_platform_schema ((p_name, p_config) # entries)
     platforms opp =
     (case component_platform_schema p_config of
        Inl (Invalid m) \<Rightarrow>
          process_platforms agi dname component_platform_schema entries platforms
            (async_log_exception (Invalid m) dname p_config opp)
      | Inl e \<Rightarrow> (opp, Inl e)
      | Inr p_validated \<Rightarrow>
          (case p_name of
             None \<Rightarrow>
               process_platforms agi dname component_platform_schema entries
                 (platforms @ [p_validated]) opp
           | Some name \<Rightarrow>
               (case agi name of
                  None \<Rightarrow>
                    process_platforms agi dname component_platform_schema entries platforms opp
                | Some p_integration \<Rightarrow>
                    (case get_platform p_integration dname of
                       None \<Rightarrow>
                         process_platforms agi dname component_platform_schema entries
                           platforms opp
                     | Some platform \<Rightarrow>
                         (case PLATFORM_SCHEMA platform of
                            None \<Rightarrow>
                              process_platforms agi dname component_platform_schema entries
                                (platforms @ [p_validated]) opp
                          | Some platform_schema \<Rightarrow>
                              (case platform_schema p_config of
                                 Inl (Invalid m) \<Rightarrow>
                                   process_platforms agi dname component_platform_schema entries
                                     platforms
                                     (async_log_exception (Invalid m) (dname @ ''.'' @ name)
                                        p_config opp)
                               | Inl e \<Rightarrow> (opp, Inl e)
                               | Inr p_validated' \<Rightarrow>
                                   process_platforms agi dname component_platform_schema
                                     entries (platforms @ [p_validated']) opp))))))"

text \<open>\<^verbatim>\<open>async_process_component_config(opp, config, integration)\<close>: the updated
  \<open>opp\<close> and the returned \<^verbatim>\<open>Optional[Dict]\<close>, or the exception that escapes.\<close>

definition async_process_component_config ::
  "integrations \<Rightarrow> (dict \<Rightarrow> string \<Rightarrow> (string option \<times> val) list) \<Rightarrow> (dict \<Rightarrow> string \<Rightarrow> string list)
     \<Rightarrow> opp_state \<Rightarrow> dict \<Rightarrow> integration \<Rightarrow> opp_state \<times> (py_error + val option)" where
  "async_process_component_config agi config_per_platform extract_domain_configs opp cfg
     integration =
     (case get_component integration of
        None \<Rightarrow> (opp, Inl ImportError)
      | Some component \<Rightarrow>
          (case CONFIG_SCHEMA component of
             Some schema \<Rightarrow>
               (case schema (VDict cfg) of
                  Inr validated \<Rightarrow> (opp, Inr (Some validated))
                | Inl (Invalid m) \<Rightarrow>
                    (async_log_exception (Invalid m) (domain integration) (VDict cfg) opp,
                     Inr None)
                | Inl e \<Rightarrow> (opp, Inl e))
           | None \<Rightarrow>
               (case (case PLATFORM_SCHEMA_BASE component of
                        Some base \<Rightarrow> Some base
                      | None \<Rightarrow> PLATFORM_SCHEMA component) of
                  None \<Rightarrow> (opp, Inr (Some (VDict cfg)))
                | Some component_platform_schema \<Rightarrow>
                    (case process_platforms agi (domain integration) component_platform_schema
                            (config_per_platform cfg (domain integration)) [] opp of
                       (opp', Inl e) \<Rightarrow> (opp', Inl e)
                     | (opp', Inr platforms) \<Rightarrow>
                         (opp', Inr (Some (VDict
                            (AList.update (domain integration) (VList platforms)
                               (filter (\<lambda>item. fst item
                                          \<notin> set (extract_domain_configs cfg (domain integration)))
                                  cfg)))))))))"

text \<open>What one platform entry contributes at best: its validated form, or
  nothing when it is dropped. This is the specification the loop is compared
  with.\<close>

definition surviving_entry ::
  "integrations \<Rightarrow> string \<Rightarrow> validator \<Rightarrow> string option \<times> val \<Rightarrow> val option" where
  "surviving_entry agi dname component_platform_schema entry =
     (case entry of (p_name, p_config) \<Rightarrow>
        (case component_platform_schema p_config of
           Inl e \<Rightarrow> None
         | Inr p_validated \<Rightarrow>
             (case p_name of
                None \<Rightarrow> Some p_validated
              | Some name \<Rightarrow>
                  (case agi name of
                     None \<Rightarrow> None
                   | Some p_integration \<Rightarrow>
                       (case get_platform p_integration dname of
                          None \<Rightarrow> None
                        | Some platform \<Rightarrow>
                            (case PLATFORM_SCHEMA platform of
                               None \<Rightarrow> Some p_validated
                             | Some platform_schema \<Rightarrow>
                                 (case platform_schema p_config of
                                    Inl e \<Rightarrow> None
                                  | Inr p_validated' \<Rightarrow> Some p_validated')))))))"

section \<open>Core config processor\<close>

text \<open>Keys and values of \<^verbatim>\<open>openpeerpower/const.py\<close> that core-config processing
  reads. The degree sign of \<^verbatim>\<open>TEMP_CELSIUS\<close> is written as its two UTF-8 bytes.\<close>

definition CONF_LATITUDE :: string where
  "CONF_LATITUDE = ''latitude''"

definition CONF_LONGITUDE :: string where
  "CONF_LONGITUDE = ''longitude''"

definition CONF_NAME :: string where
  "CONF_NAME = ''name''"

definition CONF_ELEVATION :: string where
  "CONF_ELEVATION = ''elevation''"

definition CONF_TIME_ZONE :: string where
  "CONF_TIME_ZONE = ''time_zone''"

definition CONF_UNIT_SYSTEM :: string where
  "CONF_UNIT_SYSTEM = ''unit_system''"

definition CONF_UNIT_SYSTEM_METRIC :: string where
  "CONF_UNIT_SYSTEM_METRIC = ''metric''"

definition CONF_UNIT_SYSTEM_IMPERIAL :: string where
  "CONF_UNIT_SYSTEM_IMPERIAL = ''imperial''"

definition CONF_TEMPERATURE_UNIT :: string where
  "CONF_TEMPERATURE_UNIT = ''temperature_unit''"

definition TEMP_CELSIUS :: string where
  "TEMP_CELSIUS = [CHR 0xC2, CHR 0xB0, CHR ''C'']"

definition CONF_AUTH_PROVIDERS :: string where
  "CONF_AUTH_PROVIDERS = ''auth_providers''"

definition CONF_AUTH_MFA_MODULES :: string where
  "CONF_AUTH_MFA_MODULES = ''auth_mfa_modules''"

datatype unit_system = METRIC_SYSTEM | IMPERIAL_SYSTEM

fun unit_system_name :: "unit_system \<Rightarrow> string" where
  "unit_system_name METRIC_SYSTEM = CONF_UNIT_SYSTEM_METRIC"
| "unit_system_name IMPERIAL_SYSTEM = CONF_UNIT_SYSTEM_IMPERIAL"

text \<open>The network lookups of \<^verbatim>\<open>loc_util\<close>, recorded in the order they are
  awaited, and the lines core-config processing writes to the log.\<close>

datatype lookup = DetectLocationInfo | GetElevation val val

datatype core_event =
    InvalidTimeZone val
  | DeprecatedTemperatureUnit val string
  | CouldNotDetectLocation
  | AutoDetected "(string \<times> val) list"

record location_info =
  info_latitude :: val
  info_longitude :: val
  info_use_metric :: bool
  info_city :: val
  info_time_zone :: val

text \<open>
  What core-config processing calls but does not define:
  \<^verbatim>\<open>CORE_CONFIG_SCHEMA\<close> as a whole (its validators are mostly of \<^verbatim>\<open>cv\<close>),
  \<^verbatim>\<open>date_util.get_time_zone\<close>, and the answers of the two network lookups.
  \<open>whitelist_and_customize\<close> stands for lines 466 to 494 of the source, which
  fill \<^verbatim>\<open>whitelist_external_dirs\<close> and \<^verbatim>\<open>opp.data[DATA_CUSTOMIZE]\<close>: they read and
  write none of the fields below, and all that is kept of them is whether they
  raise.
\<close>

record core_env =
  CORE_CONFIG_SCHEMA :: "val \<Rightarrow> py_error + dict"
  get_time_zone :: "val \<Rightarrow> string option"
  whitelist_and_customize :: "dict \<Rightarrow> py_error option"
  async_detect_location_info :: "location_info option"
  async_get_elevation :: "val \<Rightarrow> val \<Rightarrow> val"

text \<open>\<open>opp\<close> with \<^verbatim>\<open>opp.config\<close> (\<open>hac\<close> in the source): \<open>auth\<close> holds the
  arguments given to \<^verbatim>\<open>auth_manager_from_config\<close> and is absent while \<open>opp\<close>
  has no attribute \<^verbatim>\<open>auth\<close>; a time zone object is represented by its name.\<close>

record core_state =
  auth :: "(val \<times> val) option"
  latitude :: val
  longitude :: val
  location_name :: val
  elevation :: val
  units :: "unit_system option"
  time_zone :: "string option"
  default_time_zone :: "string option"
  lookups :: "lookup list"
  core_log :: "core_event list"

definition setup_auth :: "dict \<Rightarrow> val \<Rightarrow> val \<Rightarrow> core_state \<Rightarrow> core_state" where
  "setup_auth cfg api_password trusted_networks opp =
     (if auth opp \<noteq> None then opp
      else
        (let auth_conf =
               (if dict_get cfg CONF_AUTH_PROVIDERS = VNone
                then VList ([VDict [(''type'', VStr ''openpeerpower'')]]
                       @ (if truthy api_password
                          then [VDict [(''type'', VStr ''legacy_api_password''),
                                       (''api_password'', api_password)]]
                          else [])
                       @ (if truthy trusted_networks
                          then [VDict [(''type'', VStr ''trusted_networks''),
                                       (''trusted_networks'', trusted_networks)]]
                          else []))
                else dict_get cfg CONF_AUTH_PROVIDERS);
             mfa_conf =
               (case map_of cfg CONF_AUTH_MFA_MODULES of
                  None \<Rightarrow> VList [VDict [(''type'', VStr ''totp''), (''id'', VStr ''totp''),
                                       (''name'', VStr ''Authenticator app'')]]
                | Some v \<Rightarrow> v)
         in opp\<lparr>auth := Some (auth_conf, mfa_conf)\<rparr>))"

definition set_time_zone :: "core_env \<Rightarrow> val \<Rightarrow> core_state \<Rightarrow> core_state" where
  "set_time_zone env time_zone_str opp =
     (if time_zone_str = VNone then opp
      else (case get_time_zone env time_zone_str of
              Some tz \<Rightarrow> opp\<lparr>time_zone := Some tz, default_time_zone := Some tz\<rparr>
            | None \<Rightarrow> opp\<lparr>core_log := core_log opp @ [InvalidTimeZone time_zone_str]\<rparr>))"

text \<open>The loop over the four pairs of a key and an attribute.\<close>

definition apply_location_keys :: "dict \<Rightarrow> core_state \<Rightarrow> core_state" where
  "apply_location_keys cfg opp =
     (let o1 = (case map_of cfg CONF_LATITUDE of None \<Rightarrow> opp | Some v \<Rightarrow> opp\<lparr>latitude := v\<rparr>);
          o2 = (case map_of cfg CONF_LONGITUDE of None \<Rightarrow> o1 | Some v \<Rightarrow> o1\<lparr>longitude := v\<rparr>);
          o3 = (case map_of cfg CONF_NAME of None \<Rightarrow> o2 | Some v \<Rightarrow> o2\<lparr>location_name := v\<rparr>)
      in (case map_of cfg CONF_ELEVATION of None \<Rightarrow> o3 | Some v \<Rightarrow> o3\<lparr>elevation := v\<rparr>))"

text \<open>Lines 496 to 510: the unit system.\<close>

definition resolve_units :: "dict \<Rightarrow> core_state \<Rightarrow> core_state" where
  "resolve_units cfg opp =
     (case map_of cfg CONF_UNIT_SYSTEM of
        Some v \<Rightarrow>
          if v = VStr CONF_UNIT_SYSTEM_IMPERIAL then opp\<lparr>units := Some IMPERIAL_SYSTEM\<rparr>
          else opp\<lparr>units := Some METRIC_SYSTEM\<rparr>
      | None \<Rightarrow>
          (case map_of cfg CONF_TEMPERATURE_UNIT of
             Some unit \<Rightarrow>
               (let u = (if unit = VStr TEMP_CELSIUS then METRIC_SYSTEM else IMPERIAL_SYSTEM)
                in opp\<lparr>units := Some u,
                        core_log := core_log opp
                          @ [DeprecatedTemperatureUnit unit (unit_system_name u)]\<rparr>)
           | None \<Rightarrow> opp))"

text \<open>Lines 530 to 545: the fields taken from a detected location. The second
  component is the list \<open>discovered\<close>.\<close>

definition apply_location_info ::
  "core_env \<Rightarrow> location_info \<Rightarrow> core_state \<Rightarrow> core_state \<times> (string \<times> val) list" where
  "apply_location_info env info opp =
     (let (o1, d1) =
            (if latitude opp = VNone \<and> longitude opp = VNone
             then (opp\<lparr>latitude := info_latitude info, longitude := info_longitude info\<rparr>,
                   [(''latitude'', info_latitude info), (''longitude'', info_longitude info)])
             else (opp, []));
          (o2, d2) =
            (if units o1 = None
             then (let u = (if info_use_metric info then METRIC_SYSTEM else IMPERIAL_SYSTEM)
                   in (o1\<lparr>units := Some u\<rparr>,
                       d1 @ [(CONF_UNIT_SYSTEM, VStr (unit_system_name u))]))
             else (o1, d1));
          (o3, d3) =
            (if location_name o2 = VNone
             then (o2\<lparr>location_name := info_city info\<rparr>, d2 @ [(''name'', info_city info)])
             else (o2, d2))
      in (if time_zone o3 = None
          then (set_time_zone env (info_time_zone info) o3,
                d3 @ [(''time_zone'', info_time_zone info)])
          else (o3, d3)))"

text \<open>Lines 547 to 558: the elevation lookup and the closing warning.\<close>

definition detect_elevation ::
  "core_env \<Rightarrow> core_state \<times> (string \<times> val) list \<Rightarrow> core_state" where
  "detect_elevation env od =
     (case od of (opp, discovered) \<Rightarrow>
        (let (o1, d1) =
               (if elevation opp = VNone \<and> latitude opp \<noteq> VNone \<and> longitude opp \<noteq> VNone
                then (opp\<lparr>lookups := lookups opp @ [GetElevation (latitude opp) (longitude opp)],
                          elevation := async_get_elevation env (latitude opp) (longitude opp)\<rparr>,
                      discovered
                        @ [(''elevation'',
                            async_get_elevation env (latitude opp) (longitude opp))])
                else (opp, discovered))
         in (if d1 \<noteq> [] then o1\<lparr>core_log := core_log o1 @ [AutoDetected d1]\<rparr> else o1)))"

text \<open>Lines 512 to 558: the shortcut and the auto-detection.\<close>

definition auto_detect :: "core_env \<Rightarrow> core_state \<Rightarrow> core_state" where
  "auto_detect env opp =
     (if latitude opp \<noteq> VNone \<and> longitude opp \<noteq> VNone \<and> units opp \<noteq> None
         \<and> time_zone opp \<noteq> None \<and> elevation opp \<noteq> VNone
      then opp
      else if latitude opp = VNone \<or> longitude opp = VNone \<or> units opp = None
              \<or> time_zone opp = None
      then (case async_detect_location_info env of
              None \<Rightarrow> opp\<lparr>lookups := lookups opp @ [DetectLocationInfo],
                          core_log := core_log opp @ [CouldNotDetectLocation]\<rparr>
            | Some info \<Rightarrow>
                detect_elevation env
                  (apply_location_info env info
                     (opp\<lparr>lookups := lookups opp @ [DetectLocationInfo]\<rparr>)))
      else detect_elevation env (opp, []))"

text \<open>Everything before the shortcut: the state in which the five fields are
  tested, or the exception that escapes.\<close>

definition apply_core_config ::
  "core_env \<Rightarrow> core_state \<Rightarrow> val \<Rightarrow> val \<Rightarrow> val \<Rightarrow> core_state \<times> py_error option" where
  "apply_core_config env opp raw api_password trusted_networks =
     (case CORE_CONFIG_SCHEMA env raw of
        Inl e \<Rightarrow> (opp, Some e)
      | Inr cfg \<Rightarrow>
          (let o1 = set_time_zone env (dict_get cfg CONF_TIME_ZONE)
                      (apply_location_keys cfg
                         (setup_auth cfg api_password trusted_networks opp))
           in (case whitelist_and_customize env cfg of
                 Some e \<Rightarrow> (o1, Some e)
               | None \<Rightarrow> (resolve_units cfg o1, None))))"

definition async_process_ha_core_config ::
  "core_env \<Rightarrow> core_state \<Rightarrow> val \<Rightarrow> val \<Rightarrow> val \<Rightarrow> core_state \<times> py_error option" where
  "async_process_ha_core_config env opp raw api_password trusted_networks =
     (case apply_core_config env opp raw api_password trusted_networks of
        (o1, Some e) \<Rightarrow> (o1, Some e)
      | (o1, None) \<Rightarrow> (auto_detect env o1, None))"

text \<open>The deprecation warning of lines 507 to 510, among the lines of the log.\<close>

fun is_deprecation_warning :: "core_event \<Rightarrow> bool" where
  "is_deprecation_warning (DeprecatedTemperatureUnit unit name) = True"
| "is_deprecation_warning e = False"

text \<open>An integration registry for the examples: the only domain is \<^verbatim>\<open>http\<close>, whose
  component has a dict-shaped \<^verbatim>\<open>CONFIG_SCHEMA\<close> and no \<^verbatim>\<open>PLATFORM_SCHEMA\<close>.\<close>

definition http_integrations :: integrations where
  "http_integrations d =
     (if d = ''http''
      then Some \<lparr>domain = ''http'',
                 get_component = Some \<lparr>PLATFORM_SCHEMA = None, PLATFORM_SCHEMA_BASE = None,
                                        CONFIG_SCHEMA = Some Inr,
                                        CONFIG_SCHEMA_domain_str = Some ''{}''\<rparr>,
                 get_platform = (\<lambda>p. None)\<rparr>
      else None)"

text \<open>A component key whose component is merged by appending: the two tests of
  \<^verbatim>\<open>merge_packages_config\<close> that lead to \<^verbatim>\<open>config[comp_name].extend(...)\<close>, on the
  integration that \<^verbatim>\<open>async_get_integration\<close> gives for the key's domain.\<close>

definition list_style :: "integrations \<Rightarrow> string \<Rightarrow> bool" where
  "list_style agi comp_name =
     (case agi (takeWhile (\<lambda>ch. ch \<noteq> CHR '' '') comp_name) of
        None \<Rightarrow> False
      | Some integration \<Rightarrow>
          (case get_component integration of
             None \<Rightarrow> False
           | Some component \<Rightarrow>
               PLATFORM_SCHEMA component \<noteq> None
               \<or> (CONFIG_SCHEMA component \<noteq> None
                   \<and> identify_config_schema component = Some ''list'')))"

text \<open>The spec's reading of a list-style merge: the non-empty fragments that the
  packages hold under a component key, each coerced to a list, concatenated in
  the order of the packages and, within a package, of its entries.\<close>

definition fragment_entries :: "string \<Rightarrow> dict \<Rightarrow> val list" where
  "fragment_entries comp_name items =
     concat (map (\<lambda>item. if fst item = comp_name \<and> truthy (snd item)
                          then ensure_list (snd item) else []) items)"

definition merged_entries :: "string \<Rightarrow> dict \<Rightarrow> val list" where
  "merged_entries comp_name packages =
     concat (map (\<lambda>p. case snd p of
                         VDict items \<Rightarrow> fragment_entries comp_name items
                       | _ \<Rightarrow> []) packages)"

text \<open>A registry with a second domain, \<^verbatim>\<open>light\<close>, whose component has a
  \<^verbatim>\<open>PLATFORM_SCHEMA\<close>.\<close>

definition mixed_integrations :: integrations where
  "mixed_integrations d =
     (if d = ''light''
      then Some \<lparr>domain = ''light'',
                 get_component = Some \<lparr>PLATFORM_SCHEMA = Some Inr, PLATFORM_SCHEMA_BASE = None,
                                        CONFIG_SCHEMA = None, CONFIG_SCHEMA_domain_str = None\<rparr>,
                 get_platform = (\<lambda>p. None)\<rparr>
      else http_integrations d)"

section \<open>Properties of the error reporter\<close>

lemma notify_establishes:
  "\<exists>errors. persistent_errors (async_notify_setup_error opp c True) = Some errors
     \<and> map_of errors c = Some True
     \<and> notifications (async_notify_setup_error opp c True) \<noteq> []
     \<and> fst (last (notifications (async_notify_setup_error opp c True)))
         = setup_error_message errors"
  by (simp add: async_notify_setup_error_def Let_def update_conv')

lemma notify_preserves:
  assumes "persistent_errors opp = Some errors" and "map_of errors c = Some True"
  shows "\<exists>errors'. persistent_errors (async_notify_setup_error opp c' d) = Some errors'
     \<and> map_of errors' c = Some True
     \<and> notifications (async_notify_setup_error opp c' d) \<noteq> []
     \<and> fst (last (notifications (async_notify_setup_error opp c' d)))
         = setup_error_message errors'"
  using assms by (cases "c' = c") (simp_all add: async_notify_setup_error_def Let_def update_conv')

lemma notify_all_preserves:
  assumes "\<exists>errors. persistent_errors opp = Some errors \<and> map_of errors c = Some True
     \<and> notifications opp \<noteq> [] \<and> fst (last (notifications opp)) = setup_error_message errors"
  shows "\<exists>errors. persistent_errors (notify_all opp calls) = Some errors
     \<and> map_of errors c = Some True
     \<and> notifications (notify_all opp calls) \<noteq> []
     \<and> fst (last (notifications (notify_all opp calls))) = setup_error_message errors"
  using assms
proof (induction calls arbitrary: opp)
  case Nil
  then show ?case by simp
next
  case (Cons call calls)
  obtain c' d where call: "call = (c', d)" by (cases call)
  from Cons.prems obtain errors where "persistent_errors opp = Some errors"
    and "map_of errors c = Some True" by blast
  from notify_preserves[OF this, of c' d] Cons.IH[of "async_notify_setup_error opp c' d"]
  show ?case by (simp add: call)
qed

lemma message_contains_part:
  assumes "map_of errors c = Some True"
  shows "\<exists>pre post. setup_error_message errors
           = pre @ '' - '' @ error_part (c, True) @ [CHR 0x0A] @ post"
proof -
  from assms have "(c, True) \<in> set errors" by (rule map_of_SomeD)
  then obtain xs ys where "errors = xs @ (c, True) # ys" by (auto dest: split_list)
  then have "setup_error_message errors =
      (''The following components and platforms could not be set up:'' @ [CHR 0x0A, CHR 0x0A]
         @ concat (map (\<lambda>item. '' - '' @ error_part item @ [CHR 0x0A]) xs))
      @ '' - '' @ error_part (c, True) @ [CHR 0x0A]
      @ (concat (map (\<lambda>item. '' - '' @ error_part item @ [CHR 0x0A]) ys)
         @ [CHR 0x0A] @ ''Please check your config.'')"
    by (simp add: setup_error_message_def)
  then show ?thesis by blast
qed


text \<open>C10: the documentation-link flag of the setup-error registry is monotone.
  Once \<^verbatim>\<open>async_notify_setup_error\<close> has recorded a component with
  \<open>display_link\<close> true, the flag stays true after any later calls, whatever
  their components and flags (a call for the same component with
  \<open>display_link\<close> false among them), and the notification rendered last still
  holds the line with the documentation link of that component.\<close>

theorem setup_error_link_monotone:
  "\<exists>errors pre post.
     persistent_errors (notify_all (async_notify_setup_error opp component True) calls)
       = Some errors
     \<and> map_of errors component = Some True
     \<and> fst (last (notifications
                    (notify_all (async_notify_setup_error opp component True) calls)))
         = pre @ '' - ''
             @ HA_COMPONENT_URL
                 (map (\<lambda>ch. if ch = CHR ''_'' then CHR ''-'' else ch) component) component
             @ [CHR 0x0A] @ post"
proof -
  from notify_all_preserves[OF notify_establishes, of opp component calls]
  obtain errors where e: "persistent_errors
        (notify_all (async_notify_setup_error opp component True) calls) = Some errors"
    and t: "map_of errors component = Some True"
    and l: "fst (last (notifications
              (notify_all (async_notify_setup_error opp component True) calls)))
            = setup_error_message errors"
    by blast
  from message_contains_part[OF t] obtain pre post where
    "setup_error_message errors = pre @ '' - '' @ error_part (component, True) @ [CHR 0x0A] @ post"
    by blast
  with e t l show ?thesis by (auto simp: error_part_def)
qed

theorem setup_error_link_monotone_witness:
  "persistent_errors
     (notify_all
        (async_notify_setup_error
           \<lparr>persistent_errors = None, notifications = [], error_log = []\<rparr> ''zha_x'' True)
        [(''hue'', False), (''zha_x'', False)])
     = Some [(''zha_x'', True), (''hue'', False)]"
  using setup_error_link_monotone[of
      "\<lparr>persistent_errors = None, notifications = [], error_log = []\<rparr>" "''zha_x''"
      "[(''hue'', False), (''zha_x'', False)]"]
  by (simp add: async_notify_setup_error_def Let_def)


section \<open>Properties of the package merger\<close>


text \<open>C8: \<^verbatim>\<open>merge_packages_config\<close> validates \<open>packages\<close> before it merges anything.
  If a package name is not a slug, a package is not a mapping, or an entry of
  a package is not a dict, a list or null, the schema raises a validation
  error, which escapes at once: the configuration is as it was and the logger
  was never called.\<close>

theorem merge_packages_config_fails_fast:
  assumes "packages = VDict ps" and "(n, pkg) \<in> set ps"
    and "\<not> is_slug n \<or> (\<forall>items. pkg \<noteq> VDict items)
         \<or> (\<exists>items c v. pkg = VDict items \<and> (c, v) \<in> set items \<and> \<not> component_config_ok v)"
  shows "\<exists>m. PACKAGES_CONFIG_SCHEMA packages = Inl (Invalid m)
           \<and> merge_packages_config agi cfg packages logger
               = (\<lparr>config = cfg, pkg_errors = []\<rparr>, Some (Invalid m))"
proof -
  have bad: "\<not> is_slug n \<or> \<not> package_ok pkg"
    using assms(3) by (cases pkg) (fastforce simp: list_all_iff)+
  have "\<not> list_all (\<lambda>p. is_slug (fst p)) ps \<or> \<not> list_all (\<lambda>p. package_ok (snd p)) ps"
  proof (cases "is_slug n")
    case False
    with assms(2) have "\<exists>p\<in>set ps. \<not> is_slug (fst p)" by force
    then show ?thesis by (simp add: list_all_iff)
  next
    case True
    with bad assms(2) have "\<exists>p\<in>set ps. \<not> package_ok (snd p)" by force
    then show ?thesis by (simp add: list_all_iff)
  qed
  then show ?thesis
    by (auto simp: merge_packages_config_def PACKAGES_CONFIG_SCHEMA_def assms(1))
qed

theorem merge_packages_config_fails_fast_witness:
  "PACKAGES_CONFIG_SCHEMA (VDict [(''Bad Name'', VDict [(''light'', VNone)])])
     = Inl (Invalid ''invalid slug'')
   \<and> merge_packages_config (\<lambda>d. None) [(''light'', VList [])]
       (VDict [(''Bad Name'', VDict [(''light'', VNone)])]) (\<lambda>p c cfg m. None)
     = (\<lparr>config = [(''light'', VList [])], pkg_errors = []\<rparr>, Some (Invalid ''invalid slug''))"
  using merge_packages_config_fails_fast[of "VDict [(''Bad Name'', VDict [(''light'', VNone)])]"
      "[(''Bad Name'', VDict [(''light'', VNone)])]" "''Bad Name''" "VDict [(''light'', VNone)]"
      "\<lambda>d. None" "[(''light'', VList [])]" "\<lambda>p c cfg m. None"]
  by (simp add: is_slug_def PACKAGES_CONFIG_SCHEMA_def)


lemma list_style_step:
  "comp_name \<noteq> CONF_CORE \<Longrightarrow> list_style agi comp_name
   \<Longrightarrow> merge_component agi logger pack_name (comp_name, comp_conf) s
       = extend_entry comp_name comp_conf s"
  by (auto simp: merge_component_def list_style_def split: option.splits)

lemma truthy_ensure_list: "truthy f \<Longrightarrow> ensure_list f \<noteq> []"
  by (cases f) auto

lemma extend_entry_effect:
  "\<exists>s'. extend_entry c f s = (s', None) \<and> pkg_errors s' = pkg_errors s
     \<and> (\<forall>ck. ensure_list (dict_get (config s') ck)
               = ensure_list (dict_get (config s) ck)
                   @ (if c = ck \<and> truthy f then ensure_list f else []))
     \<and> (\<forall>ck. \<not> (c = ck \<and> truthy f) \<longrightarrow> map_of (config s') ck = map_of (config s) ck)"
  by (auto simp: extend_entry_def dict_get_def update_conv')

lemma merge_package_list_style:
  "\<forall>item\<in>set items. fst item \<noteq> CONF_CORE \<longrightarrow> list_style agi (fst item)
   \<Longrightarrow> \<exists>s'. merge_package agi logger pack_name items s = (s', None)
         \<and> pkg_errors s' = pkg_errors s
         \<and> (\<forall>ck. ck \<noteq> CONF_CORE
               \<longrightarrow> ensure_list (dict_get (config s') ck)
                   = ensure_list (dict_get (config s) ck) @ fragment_entries ck items)
         \<and> (\<forall>ck. fragment_entries ck items = []
               \<longrightarrow> map_of (config s') ck = map_of (config s) ck)"
proof (induction items arbitrary: s)
  case Nil
  show ?case by (simp add: fragment_entries_def)
next
  case (Cons item items)
  obtain c f where item: "item = (c, f)" by (cases item)
  have rest: "\<forall>item\<in>set items. fst item \<noteq> CONF_CORE \<longrightarrow> list_style agi (fst item)"
    using Cons.prems by simp
  have "\<exists>s1. merge_component agi logger pack_name (c, f) s = (s1, None)
      \<and> pkg_errors s1 = pkg_errors s
      \<and> (\<forall>ck. ck \<noteq> CONF_CORE \<longrightarrow> ensure_list (dict_get (config s1) ck)
               = ensure_list (dict_get (config s) ck)
                   @ (if c = ck \<and> truthy f then ensure_list f else []))
      \<and> (\<forall>ck. \<not> (c = ck \<and> truthy f) \<longrightarrow> map_of (config s1) ck = map_of (config s) ck)"
  proof (cases "c = CONF_CORE")
    case True
    then show ?thesis by (auto simp: merge_component_def)
  next
    case False
    with Cons.prems have "list_style agi c" by (simp add: item)
    from list_style_step[OF False this] extend_entry_effect[of c f s]
    show ?thesis by auto
  qed
  then obtain s1 where m: "merge_component agi logger pack_name (c, f) s = (s1, None)"
    and e: "pkg_errors s1 = pkg_errors s"
    and l: "\<forall>ck. ck \<noteq> CONF_CORE \<longrightarrow> ensure_list (dict_get (config s1) ck)
               = ensure_list (dict_get (config s) ck)
                   @ (if c = ck \<and> truthy f then ensure_list f else [])"
    and u: "\<forall>ck. \<not> (c = ck \<and> truthy f) \<longrightarrow> map_of (config s1) ck = map_of (config s) ck"
    by blast
  from Cons.IH[OF rest, of s1] obtain s' where
    m': "merge_package agi logger pack_name items s1 = (s', None)"
    and e': "pkg_errors s' = pkg_errors s1"
    and l': "\<forall>ck. ck \<noteq> CONF_CORE \<longrightarrow> ensure_list (dict_get (config s') ck)
               = ensure_list (dict_get (config s1) ck) @ fragment_entries ck items"
    and u': "\<forall>ck. fragment_entries ck items = []
               \<longrightarrow> map_of (config s') ck = map_of (config s1) ck"
    by blast
  have f: "fragment_entries ck (item # items)
      = (if c = ck \<and> truthy f then ensure_list f else []) @ fragment_entries ck items" for ck
    by (simp add: fragment_entries_def item)
  have "merge_package agi logger pack_name (item # items) s = (s', None)"
    using m m' by (simp add: item)
  moreover have "pkg_errors s' = pkg_errors s" using e e' by simp
  moreover have "\<forall>ck. ck \<noteq> CONF_CORE \<longrightarrow> ensure_list (dict_get (config s') ck)
       = ensure_list (dict_get (config s) ck) @ fragment_entries ck (item # items)"
    using l l' by (simp add: f)
  moreover have "\<forall>ck. fragment_entries ck (item # items) = []
               \<longrightarrow> map_of (config s') ck = map_of (config s) ck"
  proof (intro allI impI)
    fix ck assume a: "fragment_entries ck (item # items) = []"
    then have 1: "\<not> (c = ck \<and> truthy f)" and 2: "fragment_entries ck items = []"
      using truthy_ensure_list[of f] by (auto simp: f)
    from u 1 u' 2 show "map_of (config s') ck = map_of (config s) ck" by simp
  qed
  ultimately show ?case by blast
qed

lemma merge_packages_loop_list_style:
  "\<forall>p\<in>set ps. \<exists>items. snd p = VDict items
       \<and> (\<forall>item\<in>set items. fst item \<noteq> CONF_CORE \<longrightarrow> list_style agi (fst item))
   \<Longrightarrow> \<exists>s'. merge_packages_loop agi logger ps s = (s', None)
         \<and> pkg_errors s' = pkg_errors s
         \<and> (\<forall>ck. ck \<noteq> CONF_CORE
               \<longrightarrow> ensure_list (dict_get (config s') ck)
                   = ensure_list (dict_get (config s) ck) @ merged_entries ck ps)
         \<and> (\<forall>ck. merged_entries ck ps = []
               \<longrightarrow> map_of (config s') ck = map_of (config s) ck)"
proof (induction ps arbitrary: s)
  case Nil
  show ?case by (simp add: merged_entries_def)
next
  case (Cons p ps)
  obtain n pc where p: "p = (n, pc)" by (cases p)
  from Cons.prems obtain items where pc: "pc = VDict items"
    and ls: "\<forall>item\<in>set items. fst item \<noteq> CONF_CORE \<longrightarrow> list_style agi (fst item)"
    by (auto simp: p)
  have rest: "\<forall>p\<in>set ps. \<exists>items. snd p = VDict items
       \<and> (\<forall>item\<in>set items. fst item \<noteq> CONF_CORE \<longrightarrow> list_style agi (fst item))"
    using Cons.prems by simp
  from merge_package_list_style[OF ls, of logger n s] obtain s1 where
    m: "merge_package agi logger n items s = (s1, None)"
    and e: "pkg_errors s1 = pkg_errors s"
    and l: "\<forall>ck. ck \<noteq> CONF_CORE \<longrightarrow> ensure_list (dict_get (config s1) ck)
               = ensure_list (dict_get (config s) ck) @ fragment_entries ck items"
    and u: "\<forall>ck. fragment_entries ck items = []
               \<longrightarrow> map_of (config s1) ck = map_of (config s) ck"
    by blast
  from Cons.IH[OF rest, of s1] obtain s' where
    m': "merge_packages_loop agi logger ps s1 = (s', None)"
    and e': "pkg_errors s' = pkg_errors s1"
    and l': "\<forall>ck. ck \<noteq> CONF_CORE \<longrightarrow> ensure_list (dict_get (config s') ck)
               = ensure_list (dict_get (config s1) ck) @ merged_entries ck ps"
    and u': "\<forall>ck. merged_entries ck ps = []
               \<longrightarrow> map_of (config s') ck = map_of (config s1) ck"
    by blast
  have f: "merged_entries ck (p # ps) = fragment_entries ck items @ merged_entries ck ps" for ck
    by (simp add: merged_entries_def p pc)
  have "merge_packages_loop agi logger (p # ps) s = (s', None)"
    using m m' by (simp add: p pc)
  moreover have "pkg_errors s' = pkg_errors s" using e e' by simp
  moreover have "\<forall>ck. ck \<noteq> CONF_CORE \<longrightarrow> ensure_list (dict_get (config s') ck)
       = ensure_list (dict_get (config s) ck) @ merged_entries ck (p # ps)"
    using l l' by (simp add: f)
  moreover have "\<forall>ck. merged_entries ck (p # ps) = []
               \<longrightarrow> map_of (config s') ck = map_of (config s) ck"
    using u u' by (simp add: f)
  ultimately show ?case by blast
qed

lemma schema_gives_dicts:
  "PACKAGES_CONFIG_SCHEMA (VDict ps) = Inr v \<Longrightarrow> p \<in> set ps \<Longrightarrow> \<exists>items. snd p = VDict items"
  by (cases "snd p") (auto simp: PACKAGES_CONFIG_SCHEMA_def list_all_iff split: if_splits)

lemma log_pkg_error_config:
  "log_pkg_error logger pn c m s = (s', r) \<Longrightarrow> config s' = config s"
  by (auto simp: log_pkg_error_def)

lemma merge_dict_entry_other_key:
  assumes "merge_dict_entry logger pn c f s = (s', r)" and "c \<noteq> ck"
  shows "map_of (config s') ck = map_of (config s) ck"
proof -
  define s1 where "s1 = (if map_of (config s) c = None \<or> dict_get (config s) c = VNone
                     then s\<lparr>config := AList.update c (VDict []) (config s)\<rparr> else s)"
  have s1: "map_of (config s1) ck = map_of (config s) ck"
    using assms(2) by (simp add: s1_def update_conv')
  show ?thesis
  proof (cases "if f = VNone then VDict [] else f")
    case (VDict fragment)
    show ?thesis
    proof (cases "dict_get (config s1) c")
      case inner: (VDict d)
      obtain conf res where rm: "recursive_merge (VDict d) fragment = (conf, res)"
        by (cases "recursive_merge (VDict d) fragment")
      define s2 where "s2 = s1\<lparr>config := AList.update c conf (config s1)\<rparr>"
      have s2: "map_of (config s2) ck = map_of (config s) ck"
        using assms(2) s1 by (simp add: s2_def update_conv')
      have "config s' = config s2"
        using assms(1) VDict inner rm
        by (auto simp: merge_dict_entry_def Let_def s1_def[symmetric] s2_def[symmetric]
            split: sum.splits option.splits if_splits dest: log_pkg_error_config)
      with s2 show ?thesis by simp
    qed (use assms(1) VDict s1 in
        \<open>auto simp: merge_dict_entry_def Let_def s1_def[symmetric] dest: log_pkg_error_config\<close>)
  qed (use assms(1) in \<open>auto simp: merge_dict_entry_def dest: log_pkg_error_config\<close>)
qed

lemma merge_component_other_key:
  assumes "merge_component agi logger pn (c, f) s = (s', r)" and "c \<noteq> ck"
  shows "map_of (config s') ck = map_of (config s) ck"
  using assms
  by (auto simp: merge_component_def extend_entry_def update_conv'
      split: if_splits option.splits
      dest: log_pkg_error_config merge_dict_entry_other_key)

lemma merge_package_key:
  assumes "list_style agi ck" and "ck \<noteq> CONF_CORE"
  shows "merge_package agi logger pn items s = (s', None)
     \<Longrightarrow> ensure_list (dict_get (config s') ck)
         = ensure_list (dict_get (config s) ck) @ fragment_entries ck items"
proof (induction items arbitrary: s)
  case Nil
  then show ?case by (simp add: fragment_entries_def)
next
  case (Cons item items)
  obtain c f where item: "item = (c, f)" by (cases item)
  from Cons.prems obtain s1 where m: "merge_component agi logger pn (c, f) s = (s1, None)"
    and m': "merge_package agi logger pn items s1 = (s', None)"
    by (auto simp: item split: prod.splits option.splits)
  have step: "ensure_list (dict_get (config s1) ck)
       = ensure_list (dict_get (config s) ck)
           @ (if c = ck \<and> truthy f then ensure_list f else [])"
  proof (cases "c = ck")
    case True
    with m list_style_step[OF assms(2) assms(1), of logger pn f s]
    have "extend_entry ck f s = (s1, None)" by simp
    with extend_entry_effect[of ck f s] True show ?thesis by auto
  next
    case False
    from merge_component_other_key[OF m False] show ?thesis
      using False by (simp add: dict_get_def)
  qed
  from Cons.IH[OF m'] step show ?case
    by (simp add: fragment_entries_def item)
qed

lemma merge_packages_loop_key:
  assumes "list_style agi ck" and "ck \<noteq> CONF_CORE"
  shows "merge_packages_loop agi logger ps s = (s', None)
     \<Longrightarrow> ensure_list (dict_get (config s') ck)
         = ensure_list (dict_get (config s) ck) @ merged_entries ck ps"
proof (induction ps arbitrary: s)
  case Nil
  then show ?case by (simp add: merged_entries_def)
next
  case (Cons p ps)
  obtain n pc where p: "p = (n, pc)" by (cases p)
  from Cons.prems obtain items s1 where pc: "pc = VDict items"
    and m: "merge_package agi logger n items s = (s1, None)"
    and m': "merge_packages_loop agi logger ps s1 = (s', None)"
    by (auto simp: p split: val.splits prod.splits option.splits)
  from Cons.IH[OF m'] merge_package_key[OF assms m] show ?case
    by (simp add: merged_entries_def p pc)
qed

text \<open>C3: for a component key that is not the core key and whose component has a
  \<^verbatim>\<open>PLATFORM_SCHEMA\<close>, or a \<^verbatim>\<open>CONFIG_SCHEMA\<close> that \<^verbatim>\<open>_identify_config_schema\<close>
  classifies as a list. First, one step of the loop of \<^verbatim>\<open>merge_packages_config\<close>
  stores under the key the existing entry coerced to a list followed by the
  fragment coerced to a list, and a falsy fragment leaves the state as it is.
  Second, whenever \<^verbatim>\<open>merge_packages_config\<close> returns, whatever else the packages
  hold, the entry under the key is the entry of the given configuration coerced
  to a list, followed by the non-empty fragments of the packages for that key,
  in the order of the packages. Third, when the package schema accepts the
  packages and every component key in them is of that kind,
  \<^verbatim>\<open>merge_packages_config\<close> returns, logs no error, has concatenated in that way
  under every key, and has left untouched every key for which the packages hold
  no non-empty fragment.\<close>

theorem list_style_merge_is_concatenation:
  "(comp_name \<noteq> CONF_CORE \<and> list_style agi comp_name
      \<longrightarrow> merge_component agi logger pack_name (comp_name, comp_conf) s0 =
           (if truthy comp_conf
            then (s0\<lparr>config := AList.update comp_name
                      (VList (ensure_list (dict_get (config s0) comp_name)
                                @ ensure_list comp_conf))
                      (config s0)\<rparr>, None)
            else (s0, None)))
   \<and> (comp_name \<noteq> CONF_CORE \<and> list_style agi comp_name
       \<and> merge_packages_config agi cfg (VDict ps) logger = (s, None)
      \<longrightarrow> ensure_list (dict_get (config s) comp_name)
           = ensure_list (dict_get cfg comp_name) @ merged_entries comp_name ps)
   \<and> (PACKAGES_CONFIG_SCHEMA (VDict ps) = Inr v
       \<and> (\<forall>p\<in>set ps. \<forall>items. snd p = VDict items
             \<longrightarrow> (\<forall>item\<in>set items. fst item \<noteq> CONF_CORE \<longrightarrow> list_style agi (fst item)))
      \<longrightarrow> (\<exists>s. merge_packages_config agi cfg (VDict ps) logger = (s, None)
             \<and> pkg_errors s = []
             \<and> (\<forall>ck. ck \<noteq> CONF_CORE
                   \<longrightarrow> ensure_list (dict_get (config s) ck)
                       = ensure_list (dict_get cfg ck) @ merged_entries ck ps)
             \<and> (\<forall>ck. merged_entries ck ps = [] \<longrightarrow> map_of (config s) ck = map_of cfg ck)))"
proof (intro conjI impI)
  assume "comp_name \<noteq> CONF_CORE \<and> list_style agi comp_name"
  then show "merge_component agi logger pack_name (comp_name, comp_conf) s0 =
           (if truthy comp_conf
            then (s0\<lparr>config := AList.update comp_name
                      (VList (ensure_list (dict_get (config s0) comp_name)
                                @ ensure_list comp_conf))
                      (config s0)\<rparr>, None)
            else (s0, None))"
    by (simp add: list_style_step extend_entry_def)
next
  assume a: "comp_name \<noteq> CONF_CORE \<and> list_style agi comp_name
       \<and> merge_packages_config agi cfg (VDict ps) logger = (s, None)"
  then have "merge_packages_loop agi logger ps \<lparr>config = cfg, pkg_errors = []\<rparr> = (s, None)"
    by (auto simp: merge_packages_config_def split: sum.splits)
  from merge_packages_loop_key[OF _ _ this, of comp_name] a
  show "ensure_list (dict_get (config s) comp_name)
           = ensure_list (dict_get cfg comp_name) @ merged_entries comp_name ps"
    by simp
next
  assume a: "PACKAGES_CONFIG_SCHEMA (VDict ps) = Inr v
       \<and> (\<forall>p\<in>set ps. \<forall>items. snd p = VDict items
             \<longrightarrow> (\<forall>item\<in>set items. fst item \<noteq> CONF_CORE \<longrightarrow> list_style agi (fst item)))"
  have "\<forall>p\<in>set ps. \<exists>items. snd p = VDict items
       \<and> (\<forall>item\<in>set items. fst item \<noteq> CONF_CORE \<longrightarrow> list_style agi (fst item))"
  proof
    fix p assume p: "p \<in> set ps"
    from a p schema_gives_dicts[of ps v p] obtain items where "snd p = VDict items" by blast
    with a p show "\<exists>items. snd p = VDict items
       \<and> (\<forall>item\<in>set items. fst item \<noteq> CONF_CORE \<longrightarrow> list_style agi (fst item))" by blast
  qed
  from merge_packages_loop_list_style[OF this, of logger "\<lparr>config = cfg, pkg_errors = []\<rparr>"] a
  show "\<exists>s. merge_packages_config agi cfg (VDict ps) logger = (s, None)
             \<and> pkg_errors s = []
             \<and> (\<forall>ck. ck \<noteq> CONF_CORE
                   \<longrightarrow> ensure_list (dict_get (config s) ck)
                       = ensure_list (dict_get cfg ck) @ merged_entries ck ps)
             \<and> (\<forall>ck. merged_entries ck ps = [] \<longrightarrow> map_of (config s) ck = map_of cfg ck)"
    by (auto simp: merge_packages_config_def)
qed

theorem list_style_merge_is_concatenation_witness:
  "merge_packages_config mixed_integrations
     [(''light'', VDict [(''platform'', VStr ''main'')])]
     (VDict [(''pkg1'', VDict [(''light'', VDict [(''platform'', VStr ''test'')])]),
             (''pkg2'', VDict [(''light'', VList [VDict [(''platform'', VStr ''test2'')]]),
                               (''light two'', VList [])])])
     (\<lambda>p c cfg m. None)
   = (\<lparr>config = [(''light'', VList [VDict [(''platform'', VStr ''main'')],
                                      VDict [(''platform'', VStr ''test'')],
                                      VDict [(''platform'', VStr ''test2'')]])],
       pkg_errors = []\<rparr>, None)
   \<and> merged_entries ''light''
        [(''pkg1'', VDict [(''light'', VDict [(''platform'', VStr ''test'')])]),
         (''pkg2'', VDict [(''light'', VList [VDict [(''platform'', VStr ''test2'')]]),
                           (''light two'', VList [])])]
     = [VDict [(''platform'', VStr ''test'')], VDict [(''platform'', VStr ''test2'')]]
   \<and> list_style mixed_integrations ''light'' \<and> list_style mixed_integrations ''light two''
   \<and> \<not> list_style mixed_integrations ''http''"
  using list_style_merge_is_concatenation[of "''light''" mixed_integrations
     "\<lambda>p c cfg m. None" "''pkg2''" "VDict [(''platform'', VStr ''test2'')]"
     "\<lparr>config = [(''light'', VList [VDict [(''platform'', VStr ''test'')]])], pkg_errors = []\<rparr>"
     "[(''light'', VDict [(''platform'', VStr ''main'')])]"
     "[(''pkg1'', VDict [(''light'', VDict [(''platform'', VStr ''test'')])]),
       (''pkg2'', VDict [(''light'', VList [VDict [(''platform'', VStr ''test2'')]]),
                         (''light two'', VList [])])]"
     "\<lparr>config = [(''light'', VList [VDict [(''platform'', VStr ''main'')],
                                      VDict [(''platform'', VStr ''test'')],
                                      VDict [(''platform'', VStr ''test2'')]])],
       pkg_errors = []\<rparr>"
     "VDict [(''pkg1'', VDict [(''light'', VDict [(''platform'', VStr ''test'')])]),
             (''pkg2'', VDict [(''light'', VList [VDict [(''platform'', VStr ''test2'')]]),
                               (''light two'', VList [])])]"]
  by (simp add: merge_packages_config_def PACKAGES_CONFIG_SCHEMA_def is_slug_def
      merge_component_def extend_entry_def dict_get_def CONF_CORE_def
      mixed_integrations_def http_integrations_def merged_entries_def fragment_entries_def
      list_style_def identify_config_schema_def)


text \<open>C2, evaluated where the code departs from it: the duplicate key \<open>port\<close>
  ends \<^verbatim>\<open>_recursive_merge\<close> at once, so the key \<open>base_url\<close> that follows it in the
  same fragment is never merged, while the same fragment with the two keys in
  the other order does merge it. The third equation is the whole of
  \<^verbatim>\<open>merge_packages_config\<close> on that input.\<close>

theorem merge_conflict_abandons_later_keys:
  "recursive_merge (VDict [(''port'', VInt 1234)])
     [(''port'', VInt 5678), (''base_url'', VStr ''example.org'')]
     = (VDict [(''port'', VInt 1234)], Inr (Some ''port''))
   \<and> recursive_merge (VDict [(''port'', VInt 1234)])
     [(''base_url'', VStr ''example.org''), (''port'', VInt 5678)]
     = (VDict [(''port'', VInt 1234), (''base_url'', VStr ''example.org'')], Inr (Some ''port''))
   \<and> merge_packages_config
       (\<lambda>d. if d = ''http''
            then Some \<lparr>domain = ''http'',
                       get_component = Some \<lparr>PLATFORM_SCHEMA = None, PLATFORM_SCHEMA_BASE = None,
                                              CONFIG_SCHEMA = Some Inr,
                                              CONFIG_SCHEMA_domain_str = Some ''{}''\<rparr>,
                       get_platform = (\<lambda>p. None)\<rparr>
            else None)
       [(''http'', VDict [(''port'', VInt 1234)])]
       (VDict [(''pkg1'', VDict [(''http'', VDict [(''port'', VInt 5678),
                                                    (''base_url'', VStr ''example.org'')])])])
       (\<lambda>p c cfg m. None)
     = (\<lparr>config = [(''http'', VDict [(''port'', VInt 1234)])],
         pkg_errors = [(''pkg1'', ''http'', ''has duplicate key '' @ [CHR 0x27] @ ''port'' @ [CHR 0x27])]\<rparr>,
        None)"
  by (simp add: recursive_merge_def dict_get_def merge_packages_config_def
      PACKAGES_CONFIG_SCHEMA_def is_slug_def merge_component_def merge_dict_entry_def
      log_pkg_error_def identify_config_schema_def CONF_CORE_def Let_def)


section \<open>Properties of the component config validator\<close>

lemma process_platforms_skip:
  assumes "cps p_config = Inr p_validated"
    and "agi name = None \<or> (\<exists>i. agi name = Some i \<and> get_platform i dname = None)"
  shows "process_platforms agi dname cps ((Some name, p_config) # rest) platforms opp
         = process_platforms agi dname cps rest platforms opp"
  using assms by auto


text \<open>C9: a platform entry that passes the component's platform schema and names
  a platform whose integration is not found, or whose platform module cannot
  be imported, is dropped in silence: the loop gives the same platforms, the
  same notifications and the same error log as it gives without the entry.\<close>

theorem unresolvable_platform_silently_dropped:
  assumes "cps p_config = Inr p_validated"
    and "agi name = None \<or> (\<exists>i. agi name = Some i \<and> get_platform i dname = None)"
  shows "process_platforms agi dname cps (before @ (Some name, p_config) # rest) platforms opp
           = process_platforms agi dname cps (before @ rest) platforms opp
         \<and> surviving_entry agi dname cps (Some name, p_config) = None"
proof -
  have "process_platforms agi dname cps (before @ (Some name, p_config) # rest) platforms opp
           = process_platforms agi dname cps (before @ rest) platforms opp"
  proof (induction before arbitrary: platforms opp)
    case Nil
    show ?case using process_platforms_skip[of cps p_config p_validated agi name dname] assms by simp
  next
    case (Cons e before)
    obtain n c where e: "e = (n, c)" by (cases e)
    show ?case unfolding e
      by (simp add: Cons.IH split: sum.splits py_error.splits option.splits)
  qed
  moreover have "surviving_entry agi dname cps (Some name, p_config) = None"
    using assms by (auto simp: surviving_entry_def)
  ultimately show ?thesis by simp
qed

theorem unresolvable_platform_silently_dropped_witness:
  "process_platforms (\<lambda>d. None) ''light'' Inr
     [(None, VInt 1), (Some ''missing'', VInt 2), (None, VInt 3)] []
     \<lparr>persistent_errors = None, notifications = [], error_log = []\<rparr>
   = (\<lparr>persistent_errors = None, notifications = [], error_log = []\<rparr>, Inr [VInt 1, VInt 3])"
  using unresolvable_platform_silently_dropped[of Inr "VInt 2" "VInt 2" "\<lambda>d. None" "''missing''"
      "''light''" "[(None, VInt 1)]" "[(None, VInt 3)]" "[]"
      "\<lparr>persistent_errors = None, notifications = [], error_log = []\<rparr>"]
  by simp


section \<open>Properties of the core config processor\<close>

lemma lookups_setup_auth: "lookups (setup_auth cfg pw tn opp) = lookups opp"
  by (simp add: setup_auth_def Let_def)

lemma lookups_apply_location_keys: "lookups (apply_location_keys cfg opp) = lookups opp"
  by (simp add: apply_location_keys_def Let_def split: option.splits)

lemma lookups_set_time_zone: "lookups (set_time_zone env tz opp) = lookups opp"
  by (simp add: set_time_zone_def split: option.splits)

lemma lookups_resolve_units: "lookups (resolve_units cfg opp) = lookups opp"
  by (simp add: resolve_units_def Let_def split: option.splits)

lemma apply_core_config_lookups:
  "lookups (fst (apply_core_config env opp raw pw tn)) = lookups opp"
  by (simp add: apply_core_config_def Let_def lookups_setup_auth lookups_apply_location_keys
      lookups_set_time_zone lookups_resolve_units split: sum.splits option.splits)


text \<open>C5: when, after the explicit keys have been applied, latitude, longitude,
  units, time zone and elevation are all set, \<^verbatim>\<open>async_process_ha_core_config\<close>
  returns there: no location and no elevation lookup has been made.\<close>

theorem no_lookup_when_all_known:
  assumes "apply_core_config env opp raw pw tn = (o1, None)"
    and "latitude o1 \<noteq> VNone" and "longitude o1 \<noteq> VNone" and "units o1 \<noteq> None"
    and "time_zone o1 \<noteq> None" and "elevation o1 \<noteq> VNone"
  shows "async_process_ha_core_config env opp raw pw tn = (o1, None)
         \<and> lookups (fst (async_process_ha_core_config env opp raw pw tn)) = lookups opp"
proof -
  have "auto_detect env o1 = o1" using assms(2-6) by (simp add: auto_detect_def)
  then have r: "async_process_ha_core_config env opp raw pw tn = (o1, None)"
    using assms(1) by (simp add: async_process_ha_core_config_def)
  have "lookups o1 = lookups opp"
    using apply_core_config_lookups[of env opp raw pw tn] assms(1) by simp
  with r show ?thesis by simp
qed

theorem no_lookup_when_all_known_witness:
  "lookups (fst (async_process_ha_core_config
     \<lparr>CORE_CONFIG_SCHEMA = (\<lambda>v. case v of VDict d \<Rightarrow> Inr d | _ \<Rightarrow> Inl (Invalid ''expected a dictionary'')),
      get_time_zone = (\<lambda>v. case v of VStr s \<Rightarrow> Some s | _ \<Rightarrow> None),
      whitelist_and_customize = (\<lambda>cfg. None),
      async_detect_location_info = None,
      async_get_elevation = (\<lambda>la lo. VInt 0)\<rparr>
     \<lparr>auth = None, latitude = VNone, longitude = VNone, location_name = VNone, elevation = VNone,
      units = None, time_zone = None, default_time_zone = None, lookups = [], core_log = []\<rparr>
     (VDict [(''latitude'', VInt 40), (''longitude'', VInt (- 73)), (''elevation'', VInt 10),
             (''unit_system'', VStr ''metric''), (''time_zone'', VStr ''UTC'')])
     VNone VNone)) = []"
  using no_lookup_when_all_known[of
     "\<lparr>CORE_CONFIG_SCHEMA = (\<lambda>v. case v of VDict d \<Rightarrow> Inr d | _ \<Rightarrow> Inl (Invalid ''expected a dictionary'')),
      get_time_zone = (\<lambda>v. case v of VStr s \<Rightarrow> Some s | _ \<Rightarrow> None),
      whitelist_and_customize = (\<lambda>cfg. None),
      async_detect_location_info = None,
      async_get_elevation = (\<lambda>la lo. VInt 0)\<rparr>"
     "\<lparr>auth = None, latitude = VNone, longitude = VNone, location_name = VNone, elevation = VNone,
      units = None, time_zone = None, default_time_zone = None, lookups = [], core_log = []\<rparr>"
     "VDict [(''latitude'', VInt 40), (''longitude'', VInt (- 73)), (''elevation'', VInt 10),
             (''unit_system'', VStr ''metric''), (''time_zone'', VStr ''UTC'')]"
     VNone VNone
     "fst (apply_core_config
     \<lparr>CORE_CONFIG_SCHEMA = (\<lambda>v. case v of VDict d \<Rightarrow> Inr d | _ \<Rightarrow> Inl (Invalid ''expected a dictionary'')),
      get_time_zone = (\<lambda>v. case v of VStr s \<Rightarrow> Some s | _ \<Rightarrow> None),
      whitelist_and_customize = (\<lambda>cfg. None),
      async_detect_location_info = None,
      async_get_elevation = (\<lambda>la lo. VInt 0)\<rparr>
     \<lparr>auth = None, latitude = VNone, longitude = VNone, location_name = VNone, elevation = VNone,
      units = None, time_zone = None, default_time_zone = None, lookups = [], core_log = []\<rparr>
     (VDict [(''latitude'', VInt 40), (''longitude'', VInt (- 73)), (''elevation'', VInt 10),
             (''unit_system'', VStr ''metric''), (''time_zone'', VStr ''UTC'')])
     VNone VNone)"]
  by (simp add: apply_core_config_def setup_auth_def apply_location_keys_def set_time_zone_def
      resolve_units_def dict_get_def Let_def CONF_LATITUDE_def CONF_LONGITUDE_def CONF_NAME_def
      CONF_ELEVATION_def CONF_TIME_ZONE_def CONF_UNIT_SYSTEM_def CONF_TEMPERATURE_UNIT_def
      CONF_AUTH_PROVIDERS_def CONF_AUTH_MFA_MODULES_def CONF_UNIT_SYSTEM_IMPERIAL_def)

section \<open>Properties of the duplicate checks\<close>

lemma py_eq_plain: "as_number a = None \<Longrightarrow> py_eq a b = (a = b)"
  by (simp add: py_eq_def)

lemma is_str_plain: "is_str a \<Longrightarrow> as_number a = None \<and> hashable a"
  by (cases a) auto

lemma auth_entry_typed_dest:
  assumes "auth_entry_typed c"
  obtains d t where "c = VDict d" and "map_of d CONF_TYPE = Some t" and "is_str t"
    and "map_of d CONF_ID = None \<or> (\<exists>i. map_of d CONF_ID = Some i \<and> is_str i)"
  using assms by (auto simp: auth_entry_typed_def split: val.splits option.splits)

lemma earlier_index:
  assumes "j < length xs" and "f (xs ! j) \<in> set (take j (map f xs))"
  shows "\<exists>i. i < j \<and> f (xs ! i) = f (xs ! j)"
proof -
  from assms(2) obtain i where "i < length (take j (map f xs))"
    and "take j (map f xs) ! i = f (xs ! j)" by (auto simp: in_set_conv_nth)
  with assms(1) show ?thesis by (intro exI[of _ i]) simp
qed

lemma auth_provider_loop_spec:
  assumes "\<forall>c\<in>set configs. auth_entry_typed c"
    and "\<forall>k\<in>set keys. is_str (fst k) \<and> (snd k = VNone \<or> is_str (snd k))"
  shows "if distinct (map auth_provider_key configs)
            \<and> set (map auth_provider_key configs) \<inter> set keys = {}
         then no_duplicate_auth_provider_loop configs keys = None
         else \<exists>j<length configs.
                auth_provider_key (configs ! j)
                  \<in> set keys \<union> set (take j (map auth_provider_key configs))
                \<and> no_duplicate_auth_provider_loop configs keys
                    = Some (Invalid (duplicate_auth_provider_message (entry_type (configs ! j))))"
  using assms
proof (induction configs arbitrary: keys)
  case Nil
  show ?case by simp
next
  case (Cons c cs)
  from Cons.prems(1) have "auth_entry_typed c" by simp
  then obtain d t where c: "c = VDict d" and t: "map_of d CONF_TYPE = Some t" "is_str t"
    and i: "map_of d CONF_ID = None \<or> (\<exists>i. map_of d CONF_ID = Some i \<and> is_str i)"
    by (rule auth_entry_typed_dest)
  let ?i = "dict_get d CONF_ID"
  have i': "?i = VNone \<or> is_str ?i" using i by (auto simp: dict_get_def)
  have key: "auth_provider_key c = (t, ?i)" and ty: "entry_type c = t"
    by (simp_all add: auth_provider_key_def entry_type_def dict_get_def c t)
  have mem: "list_ex (\<lambda>k. py_eq (fst k) t \<and> py_eq (snd k) ?i) keys = ((t, ?i) \<in> set keys)"
  proof -
    have "py_eq (fst k) t = (fst k = t) \<and> py_eq (snd k) ?i = (snd k = ?i)" if "k \<in> set keys" for k
      using that Cons.prems(2) by (auto simp: py_eq_plain is_str_plain)
    then have "list_ex (\<lambda>k. py_eq (fst k) t \<and> py_eq (snd k) ?i) keys
               = (\<exists>k\<in>set keys. fst k = t \<and> snd k = ?i)"
      by (auto simp: list_ex_iff)
    also have "\<dots> = ((t, ?i) \<in> set keys)" by force
    finally show ?thesis .
  qed
  have hash: "hashable t \<and> hashable ?i" using t(2) i' by (auto simp: is_str_plain)
  have step: "no_duplicate_auth_provider_loop (c # cs) keys
      = (if (t, ?i) \<in> set keys then Some (Invalid (duplicate_auth_provider_message t))
         else no_duplicate_auth_provider_loop cs ((t, ?i) # keys))"
    using hash by (simp add: c t mem)
  show ?case
  proof (cases "(t, ?i) \<in> set keys")
    case True
    have "auth_provider_key ((c # cs) ! 0)
            \<in> set keys \<union> set (take 0 (map auth_provider_key (c # cs)))
          \<and> no_duplicate_auth_provider_loop (c # cs) keys
              = Some (Invalid (duplicate_auth_provider_message (entry_type ((c # cs) ! 0))))"
      using True by (simp add: key ty step del: no_duplicate_auth_provider_loop.simps)
    then have "\<exists>j<length (c # cs). auth_provider_key ((c # cs) ! j)
            \<in> set keys \<union> set (take j (map auth_provider_key (c # cs)))
          \<and> no_duplicate_auth_provider_loop (c # cs) keys
              = Some (Invalid (duplicate_auth_provider_message (entry_type ((c # cs) ! j))))"
      by (intro exI[of _ 0]) simp
    moreover have "\<not> (distinct (map auth_provider_key (c # cs))
            \<and> set (map auth_provider_key (c # cs)) \<inter> set keys = {})"
      using True key by auto
    ultimately show ?thesis by (simp only: if_False)
  next
    case False
    have typed': "\<forall>k\<in>set ((t, ?i) # keys). is_str (fst k) \<and> (snd k = VNone \<or> is_str (snd k))"
      using t(2) i' Cons.prems(2) by auto
    have typed_cs: "\<forall>c\<in>set cs. auth_entry_typed c" using Cons.prems(1) by simp
    note IH = Cons.IH[OF typed_cs typed']
    have cond: "(distinct (map auth_provider_key (c # cs))
                  \<and> set (map auth_provider_key (c # cs)) \<inter> set keys = {})
              = (distinct (map auth_provider_key cs)
                  \<and> set (map auth_provider_key cs) \<inter> set ((t, ?i) # keys) = {})"
      using False key by auto
    show ?thesis
    proof (cases "distinct (map auth_provider_key cs)
                  \<and> set (map auth_provider_key cs) \<inter> set ((t, ?i) # keys) = {}")
      case True
      with IH have "no_duplicate_auth_provider_loop cs ((t, ?i) # keys) = None" by simp
      with True cond False show ?thesis by (simp add: step del: no_duplicate_auth_provider_loop.simps)
    next
      case nd: False
      with IH obtain j where j: "j < length cs"
        and jk: "auth_provider_key (cs ! j)
                  \<in> set ((t, ?i) # keys) \<union> set (take j (map auth_provider_key cs))"
        and jr: "no_duplicate_auth_provider_loop cs ((t, ?i) # keys)
                  = Some (Invalid (duplicate_auth_provider_message (entry_type (cs ! j))))"
        by (simp only: if_False) blast
      have "Suc j < length (c # cs)
          \<and> auth_provider_key ((c # cs) ! Suc j)
            \<in> set keys \<union> set (take (Suc j) (map auth_provider_key (c # cs)))
          \<and> no_duplicate_auth_provider_loop (c # cs) keys
              = Some (Invalid (duplicate_auth_provider_message (entry_type ((c # cs) ! Suc j))))"
        using j jk jr False by (auto simp: step key simp del: no_duplicate_auth_provider_loop.simps)
      then have "\<exists>j<length (c # cs). auth_provider_key ((c # cs) ! j)
            \<in> set keys \<union> set (take j (map auth_provider_key (c # cs)))
          \<and> no_duplicate_auth_provider_loop (c # cs) keys
              = Some (Invalid (duplicate_auth_provider_message (entry_type ((c # cs) ! j))))"
        by blast
      with nd cond show ?thesis by (simp only: if_False)
    qed
  qed
qed


lemma mfa_module_loop_spec:
  assumes "\<forall>c\<in>set configs. auth_entry_typed c"
    and "\<forall>k\<in>set keys. is_str k"
  shows "if distinct (map mfa_module_key configs)
            \<and> set (map mfa_module_key configs) \<inter> set keys = {}
         then no_duplicate_auth_mfa_module_loop configs keys = None
         else \<exists>j<length configs.
                mfa_module_key (configs ! j)
                  \<in> set keys \<union> set (take j (map mfa_module_key configs))
                \<and> no_duplicate_auth_mfa_module_loop configs keys
                    = Some (Invalid (duplicate_mfa_module_message (entry_type (configs ! j))))"
  using assms
proof (induction configs arbitrary: keys)
  case Nil
  show ?case by simp
next
  case (Cons c cs)
  from Cons.prems(1) have "auth_entry_typed c" by simp
  then obtain d t where c: "c = VDict d" and t: "map_of d CONF_TYPE = Some t" "is_str t"
    and i: "map_of d CONF_ID = None \<or> (\<exists>i. map_of d CONF_ID = Some i \<and> is_str i)"
    by (rule auth_entry_typed_dest)
  let ?k = "case map_of d CONF_ID of None \<Rightarrow> t | Some i \<Rightarrow> i"
  have k: "is_str ?k" using t(2) i by auto
  have key: "mfa_module_key c = ?k" and ty: "entry_type c = t"
    by (simp_all add: mfa_module_key_def entry_type_def dict_get_def c t split: option.splits)
  have mem: "list_ex (\<lambda>k. py_eq k ?k) keys = (?k \<in> set keys)"
  proof -
    have "py_eq k' ?k = (k' = ?k)" if "k' \<in> set keys" for k'
      using that Cons.prems(2) by (auto simp: py_eq_plain is_str_plain)
    then show ?thesis by (auto simp: list_ex_iff)
  qed
  have step: "no_duplicate_auth_mfa_module_loop (c # cs) keys
      = (if ?k \<in> set keys then Some (Invalid (duplicate_mfa_module_message t))
         else no_duplicate_auth_mfa_module_loop cs (?k # keys))"
    using k by (simp add: c t mem Let_def is_str_plain)
  show ?case
  proof (cases "?k \<in> set keys")
    case True
    have "mfa_module_key ((c # cs) ! 0)
            \<in> set keys \<union> set (take 0 (map mfa_module_key (c # cs)))
          \<and> no_duplicate_auth_mfa_module_loop (c # cs) keys
              = Some (Invalid (duplicate_mfa_module_message (entry_type ((c # cs) ! 0))))"
      using True by (simp add: key ty step del: no_duplicate_auth_mfa_module_loop.simps)
    then have "\<exists>j<length (c # cs). mfa_module_key ((c # cs) ! j)
            \<in> set keys \<union> set (take j (map mfa_module_key (c # cs)))
          \<and> no_duplicate_auth_mfa_module_loop (c # cs) keys
              = Some (Invalid (duplicate_mfa_module_message (entry_type ((c # cs) ! j))))"
      by (intro exI[of _ 0]) simp
    moreover have "\<not> (distinct (map mfa_module_key (c # cs))
            \<and> set (map mfa_module_key (c # cs)) \<inter> set keys = {})"
      using True key by auto
    ultimately show ?thesis by (simp only: if_False)
  next
    case False
    have typed': "\<forall>k\<in>set (?k # keys). is_str k"
      using k Cons.prems(2) by auto
    have typed_cs: "\<forall>c\<in>set cs. auth_entry_typed c" using Cons.prems(1) by simp
    note IH = Cons.IH[OF typed_cs typed']
    have cond: "(distinct (map mfa_module_key (c # cs))
                  \<and> set (map mfa_module_key (c # cs)) \<inter> set keys = {})
              = (distinct (map mfa_module_key cs)
                  \<and> set (map mfa_module_key cs) \<inter> set (?k # keys) = {})"
      using False key by auto
    show ?thesis
    proof (cases "distinct (map mfa_module_key cs)
                  \<and> set (map mfa_module_key cs) \<inter> set (?k # keys) = {}")
      case True
      with IH have "no_duplicate_auth_mfa_module_loop cs (?k # keys) = None" by simp
      with True cond False show ?thesis
        by (simp add: step del: no_duplicate_auth_mfa_module_loop.simps)
    next
      case nd: False
      with IH obtain j where j: "j < length cs"
        and jk: "mfa_module_key (cs ! j)
                  \<in> set (?k # keys) \<union> set (take j (map mfa_module_key cs))"
        and jr: "no_duplicate_auth_mfa_module_loop cs (?k # keys)
                  = Some (Invalid (duplicate_mfa_module_message (entry_type (cs ! j))))"
        by (simp only: if_False) blast
      have "Suc j < length (c # cs)
          \<and> mfa_module_key ((c # cs) ! Suc j)
            \<in> set keys \<union> set (take (Suc j) (map mfa_module_key (c # cs)))
          \<and> no_duplicate_auth_mfa_module_loop (c # cs) keys
              = Some (Invalid (duplicate_mfa_module_message (entry_type ((c # cs) ! Suc j))))"
        using j jk jr False
        by (auto simp: step key simp del: no_duplicate_auth_mfa_module_loop.simps)
      then have "\<exists>j<length (c # cs). mfa_module_key ((c # cs) ! j)
            \<in> set keys \<union> set (take j (map mfa_module_key (c # cs)))
          \<and> no_duplicate_auth_mfa_module_loop (c # cs) keys
              = Some (Invalid (duplicate_mfa_module_message (entry_type ((c # cs) ! j))))"
        by blast
      with nd cond show ?thesis by (simp only: if_False)
    qed
  qed
qed

lemma no_duplicate_auth_provider_spec:
  assumes "\<forall>c\<in>set configs. auth_entry_typed c"
  shows "(distinct (map auth_provider_key configs)
            \<longrightarrow> no_duplicate_auth_provider configs = Inr configs)
       \<and> (\<not> distinct (map auth_provider_key configs)
            \<longrightarrow> (\<exists>i j. i < j \<and> j < length configs
                   \<and> auth_provider_key (configs ! i) = auth_provider_key (configs ! j)
                   \<and> no_duplicate_auth_provider configs
                       = Inl (Invalid (duplicate_auth_provider_message
                                         (entry_type (configs ! j))))))"
proof (cases "distinct (map auth_provider_key configs)")
  case True
  with auth_provider_loop_spec[OF assms, of "[]"] show ?thesis
    by (simp add: no_duplicate_auth_provider_def)
next
  case False
  with auth_provider_loop_spec[OF assms, of "[]"] obtain j where j: "j < length configs"
    and jk: "auth_provider_key (configs ! j) \<in> set (take j (map auth_provider_key configs))"
    and jr: "no_duplicate_auth_provider_loop configs []
              = Some (Invalid (duplicate_auth_provider_message (entry_type (configs ! j))))"
    by auto
  from earlier_index[OF j jk] obtain i where "i < j"
    and "auth_provider_key (configs ! i) = auth_provider_key (configs ! j)" by blast
  with j jr False show ?thesis
    by (auto simp: no_duplicate_auth_provider_def)
qed

lemma no_duplicate_auth_mfa_module_spec:
  assumes "\<forall>c\<in>set configs. auth_entry_typed c"
  shows "(distinct (map mfa_module_key configs)
            \<longrightarrow> no_duplicate_auth_mfa_module configs = Inr configs)
       \<and> (\<not> distinct (map mfa_module_key configs)
            \<longrightarrow> (\<exists>i j. i < j \<and> j < length configs
                   \<and> mfa_module_key (configs ! i) = mfa_module_key (configs ! j)
                   \<and> no_duplicate_auth_mfa_module configs
                       = Inl (Invalid (duplicate_mfa_module_message
                                         (entry_type (configs ! j))))))"
proof (cases "distinct (map mfa_module_key configs)")
  case True
  with mfa_module_loop_spec[OF assms, of "[]"] show ?thesis
    by (simp add: no_duplicate_auth_mfa_module_def)
next
  case False
  with mfa_module_loop_spec[OF assms, of "[]"] obtain j where j: "j < length configs"
    and jk: "mfa_module_key (configs ! j) \<in> set (take j (map mfa_module_key configs))"
    and jr: "no_duplicate_auth_mfa_module_loop configs []
              = Some (Invalid (duplicate_mfa_module_message (entry_type (configs ! j))))"
    by auto
  from earlier_index[OF j jk] obtain i where "i < j"
    and "mfa_module_key (configs ! i) = mfa_module_key (configs ! j)" by blast
  with j jr False show ?thesis
    by (auto simp: no_duplicate_auth_mfa_module_def)
qed


lemma auth_provider_key_type: "fst (auth_provider_key c) = entry_type c"
  by (cases c) (simp_all add: auth_provider_key_def entry_type_def)

text \<open>C7: the validators of the core schema for the auth-provider list and the
  MFA-module list, on a list whose entries have passed the entry schema. When
  the keys (type and optional id for a provider; id when present, else type,
  for an MFA module) are pairwise different, the list passes unchanged. When two
  entries share a key, a validation error (\<^verbatim>\<open>vol.Invalid\<close>) is raised whose message
  names the type of the later of two entries with the same key. For auth
  providers that is the type both entries have. For MFA modules it is only the
  type of the later entry: the shared key may be an id, or the id of one and the
  type of the other, so the type named need not occur twice in the list.\<close>

theorem core_schema_rejects_duplicate_auth_entries:
  assumes "validate_each entry_schema (ensure_list v) = Inr configs"
    and "\<forall>c\<in>set configs. auth_entry_typed c"
  shows "(distinct (map auth_provider_key configs)
            \<longrightarrow> auth_providers_schema entry_schema v = Inr configs
                \<and> no_duplicate_auth_provider configs = Inr configs)
       \<and> (\<not> distinct (map auth_provider_key configs)
            \<longrightarrow> (\<exists>i j. i < j \<and> j < length configs
                   \<and> auth_provider_key (configs ! i) = auth_provider_key (configs ! j)
                   \<and> entry_type (configs ! i) = entry_type (configs ! j)
                   \<and> auth_providers_schema entry_schema v
                       = Inl (Invalid (duplicate_auth_provider_message
                                         (entry_type (configs ! j))))))
       \<and> (distinct (map mfa_module_key configs)
            \<longrightarrow> auth_mfa_modules_schema entry_schema v = Inr configs
                \<and> no_duplicate_auth_mfa_module configs = Inr configs)
       \<and> (\<not> distinct (map mfa_module_key configs)
            \<longrightarrow> (\<exists>i j. i < j \<and> j < length configs
                   \<and> mfa_module_key (configs ! i) = mfa_module_key (configs ! j)
                   \<and> auth_mfa_modules_schema entry_schema v
                       = Inl (Invalid (duplicate_mfa_module_message
                                         (entry_type (configs ! j))))))"
proof (intro conjI impI)
  assume "distinct (map auth_provider_key configs)"
  with no_duplicate_auth_provider_spec[OF assms(2)]
  show "auth_providers_schema entry_schema v = Inr configs"
    and "no_duplicate_auth_provider configs = Inr configs"
    by (simp_all add: auth_providers_schema_def assms(1))
next
  assume "\<not> distinct (map auth_provider_key configs)"
  with no_duplicate_auth_provider_spec[OF assms(2)] obtain i j where ij: "i < j" "j < length configs"
    and k: "auth_provider_key (configs ! i) = auth_provider_key (configs ! j)"
    and r: "no_duplicate_auth_provider configs
              = Inl (Invalid (duplicate_auth_provider_message (entry_type (configs ! j))))"
    by blast
  from k have "entry_type (configs ! i) = entry_type (configs ! j)"
    by (simp flip: auth_provider_key_type)
  with ij k r show "\<exists>i j. i < j \<and> j < length configs
                   \<and> auth_provider_key (configs ! i) = auth_provider_key (configs ! j)
                   \<and> entry_type (configs ! i) = entry_type (configs ! j)
                   \<and> auth_providers_schema entry_schema v
                       = Inl (Invalid (duplicate_auth_provider_message
                                         (entry_type (configs ! j))))"
    by (auto simp: auth_providers_schema_def assms(1))
next
  assume "distinct (map mfa_module_key configs)"
  with no_duplicate_auth_mfa_module_spec[OF assms(2)]
  show "auth_mfa_modules_schema entry_schema v = Inr configs"
    and "no_duplicate_auth_mfa_module configs = Inr configs"
    by (simp_all add: auth_mfa_modules_schema_def assms(1))
next
  assume "\<not> distinct (map mfa_module_key configs)"
  with no_duplicate_auth_mfa_module_spec[OF assms(2)]
  show "\<exists>i j. i < j \<and> j < length configs
                   \<and> mfa_module_key (configs ! i) = mfa_module_key (configs ! j)
                   \<and> auth_mfa_modules_schema entry_schema v
                       = Inl (Invalid (duplicate_mfa_module_message
                                         (entry_type (configs ! j))))"
    by (simp add: auth_mfa_modules_schema_def assms(1))
qed

theorem core_schema_rejects_duplicate_auth_entries_witness:
  "auth_providers_schema Inr
     (VList [VDict [(''type'', VStr ''openpeerpower'')],
             VDict [(''type'', VStr ''trusted_networks''), (''id'', VStr ''a'')],
             VDict [(''type'', VStr ''openpeerpower'')]])
     = Inl (Invalid ''Duplicate auth provider openpeerpower found. Please add unique IDs if you want to have the same auth provider twice'')
   \<and> auth_mfa_modules_schema Inr
     (VList [VDict [(''type'', VStr ''totp'')],
             VDict [(''type'', VStr ''notify''), (''id'', VStr ''totp'')]])
     = Inl (Invalid ''Duplicate mfa module notify found. Please add unique IDs if you want to have the same mfa module twice'')
   \<and> auth_providers_schema Inr
     (VList [VDict [(''type'', VStr ''totp'')],
             VDict [(''type'', VStr ''notify''), (''id'', VStr ''totp'')]])
     = Inr [VDict [(''type'', VStr ''totp'')],
            VDict [(''type'', VStr ''notify''), (''id'', VStr ''totp'')]]"
  using core_schema_rejects_duplicate_auth_entries[of Inr
      "VList [VDict [(''type'', VStr ''totp'')],
             VDict [(''type'', VStr ''notify''), (''id'', VStr ''totp'')]]"
      "[VDict [(''type'', VStr ''totp'')],
             VDict [(''type'', VStr ''notify''), (''id'', VStr ''totp'')]]"]
  by (simp add: auth_providers_schema_def auth_mfa_modules_schema_def
      no_duplicate_auth_provider_def no_duplicate_auth_mfa_module_def
      duplicate_auth_provider_message_def duplicate_mfa_module_message_def
      CONF_TYPE_def CONF_ID_def dict_get_def py_eq_def Let_def)

text \<open>Two MFA modules of different types with the same id: the list is
  rejected and the message names \<^verbatim>\<open>notify\<close>, a type that occurs once.\<close>

theorem mfa_error_names_a_type_that_is_not_duplicated:
  "auth_mfa_modules_schema Inr
     (VList [VDict [(''type'', VStr ''totp''), (''id'', VStr ''a'')],
             VDict [(''type'', VStr ''notify''), (''id'', VStr ''a'')]])
     = Inl (Invalid ''Duplicate mfa module notify found. Please add unique IDs if you want to have the same mfa module twice'')
   \<and> map entry_type [VDict [(''type'', VStr ''totp''), (''id'', VStr ''a'')],
                      VDict [(''type'', VStr ''notify''), (''id'', VStr ''a'')]]
     = [VStr ''totp'', VStr ''notify'']
   \<and> auth_entry_typed (VDict [(''type'', VStr ''totp''), (''id'', VStr ''a'')])
   \<and> auth_entry_typed (VDict [(''type'', VStr ''notify''), (''id'', VStr ''a'')])"
  by (simp add: auth_mfa_modules_schema_def no_duplicate_auth_mfa_module_def
      duplicate_mfa_module_message_def entry_type_def auth_entry_typed_def
      CONF_TYPE_def CONF_ID_def dict_get_def py_eq_def Let_def)

subsection \<open>Unit system\<close>

lemma set_time_zone_units:
  "units (set_time_zone env tz s) = units s
   \<and> filter is_deprecation_warning (core_log (set_time_zone env tz s))
       = filter is_deprecation_warning (core_log s)"
  by (simp add: set_time_zone_def split: option.splits)

lemma setup_auth_units:
  "units (setup_auth cfg pw tn s) = units s \<and> core_log (setup_auth cfg pw tn s) = core_log s"
  by (simp add: setup_auth_def Let_def)

lemma apply_location_keys_units:
  "units (apply_location_keys cfg s) = units s \<and> core_log (apply_location_keys cfg s) = core_log s"
  by (simp add: apply_location_keys_def Let_def split: option.splits)

lemma before_units:
  "units (set_time_zone env tz (apply_location_keys cfg (setup_auth cfg pw tn s))) = units s
   \<and> filter is_deprecation_warning
        (core_log (set_time_zone env tz (apply_location_keys cfg (setup_auth cfg pw tn s))))
       = filter is_deprecation_warning (core_log s)"
  by (simp add: set_time_zone_units setup_auth_units apply_location_keys_units)

lemma apply_location_info_units:
  "units (fst (apply_location_info env info s))
     = (case units s of
          Some u \<Rightarrow> Some u
        | None \<Rightarrow> Some (if info_use_metric info then METRIC_SYSTEM else IMPERIAL_SYSTEM))
   \<and> filter is_deprecation_warning (core_log (fst (apply_location_info env info s)))
       = filter is_deprecation_warning (core_log s)"
  by (simp add: apply_location_info_def Let_def set_time_zone_units split: option.splits)

lemma detect_elevation_units:
  "units (detect_elevation env (s, d)) = units s
   \<and> filter is_deprecation_warning (core_log (detect_elevation env (s, d)))
       = filter is_deprecation_warning (core_log s)"
  by (simp add: detect_elevation_def Let_def)

lemma auto_detect_units:
  "units (auto_detect env s)
     = (case units s of
          Some u \<Rightarrow> Some u
        | None \<Rightarrow>
            (case async_detect_location_info env of
               None \<Rightarrow> None
             | Some info \<Rightarrow> Some (if info_use_metric info then METRIC_SYSTEM else IMPERIAL_SYSTEM)))
   \<and> filter is_deprecation_warning (core_log (auto_detect env s))
       = filter is_deprecation_warning (core_log s)"
proof (cases "async_detect_location_info env")
  case None
  then show ?thesis
    by (auto simp: auto_detect_def detect_elevation_units split: option.splits)
next
  case (Some info)
  obtain s' d where a: "apply_location_info env info
      (s\<lparr>lookups := lookups s @ [DetectLocationInfo]\<rparr>) = (s', d)"
    by (cases "apply_location_info env info (s\<lparr>lookups := lookups s @ [DetectLocationInfo]\<rparr>)")
  from apply_location_info_units[of env info "s\<lparr>lookups := lookups s @ [DetectLocationInfo]\<rparr>"] a
  have s': "units s' = (case units s of
          Some u \<Rightarrow> Some u
        | None \<Rightarrow> Some (if info_use_metric info then METRIC_SYSTEM else IMPERIAL_SYSTEM))"
      "filter is_deprecation_warning (core_log s') = filter is_deprecation_warning (core_log s)"
    by simp_all
  show ?thesis
    using s' by (auto simp: auto_detect_def Some a detect_elevation_units split: option.splits)
qed


text \<open>C6: the unit system after core-config processing, for a configuration the
  schema accepts. If the unit-system key is present, it alone decides: imperial
  when it equals \<^verbatim>\<open>CONF_UNIT_SYSTEM_IMPERIAL\<close>, metric otherwise, and no deprecation
  warning is logged. Otherwise, if the temperature-unit key is present, Celsius
  gives metric and anything else imperial, and exactly one deprecation warning
  is logged. Otherwise the units are not assigned before auto-detection, which
  fills them only when they are unset, and no warning is logged.\<close>

theorem unit_system_precedence:
  assumes "CORE_CONFIG_SCHEMA env raw = Inr cfg" and "whitelist_and_customize env cfg = None"
  shows "\<exists>o1 opp'.
     apply_core_config env opp raw pw tn = (o1, None)
     \<and> async_process_ha_core_config env opp raw pw tn = (opp', None)
     \<and> (case map_of cfg CONF_UNIT_SYSTEM of
           Some v \<Rightarrow>
             units opp' = Some (if v = VStr CONF_UNIT_SYSTEM_IMPERIAL
                                then IMPERIAL_SYSTEM else METRIC_SYSTEM)
             \<and> filter is_deprecation_warning (core_log opp')
                 = filter is_deprecation_warning (core_log opp)
         | None \<Rightarrow>
             (case map_of cfg CONF_TEMPERATURE_UNIT of
                Some unit \<Rightarrow>
                  units opp' = Some (if unit = VStr TEMP_CELSIUS
                                     then METRIC_SYSTEM else IMPERIAL_SYSTEM)
                  \<and> filter is_deprecation_warning (core_log opp')
                      = filter is_deprecation_warning (core_log opp)
                          @ [DeprecatedTemperatureUnit unit
                               (if unit = VStr TEMP_CELSIUS
                                then CONF_UNIT_SYSTEM_METRIC else CONF_UNIT_SYSTEM_IMPERIAL)]
              | None \<Rightarrow>
                  units o1 = units opp
                  \<and> units opp'
                      = (case units opp of
                           Some u \<Rightarrow> Some u
                         | None \<Rightarrow>
                             (case async_detect_location_info env of
                                None \<Rightarrow> None
                              | Some info \<Rightarrow>
                                  Some (if info_use_metric info
                                        then METRIC_SYSTEM else IMPERIAL_SYSTEM)))
                  \<and> filter is_deprecation_warning (core_log opp')
                      = filter is_deprecation_warning (core_log opp)))"
proof -
  let ?b = "set_time_zone env (dict_get cfg CONF_TIME_ZONE)
              (apply_location_keys cfg (setup_auth cfg pw tn opp))"
  have a: "apply_core_config env opp raw pw tn = (resolve_units cfg ?b, None)"
    by (simp add: apply_core_config_def assms Let_def)
  then have p: "async_process_ha_core_config env opp raw pw tn
                  = (auto_detect env (resolve_units cfg ?b), None)"
    by (simp add: async_process_ha_core_config_def)
  have "case map_of cfg CONF_UNIT_SYSTEM of
           Some v \<Rightarrow>
             units (auto_detect env (resolve_units cfg ?b))
               = Some (if v = VStr CONF_UNIT_SYSTEM_IMPERIAL
                                then IMPERIAL_SYSTEM else METRIC_SYSTEM)
             \<and> filter is_deprecation_warning (core_log (auto_detect env (resolve_units cfg ?b)))
                 = filter is_deprecation_warning (core_log opp)
         | None \<Rightarrow>
             (case map_of cfg CONF_TEMPERATURE_UNIT of
                Some unit \<Rightarrow>
                  units (auto_detect env (resolve_units cfg ?b))
                    = Some (if unit = VStr TEMP_CELSIUS
                                     then METRIC_SYSTEM else IMPERIAL_SYSTEM)
                  \<and> filter is_deprecation_warning
                        (core_log (auto_detect env (resolve_units cfg ?b)))
                      = filter is_deprecation_warning (core_log opp)
                          @ [DeprecatedTemperatureUnit unit
                               (if unit = VStr TEMP_CELSIUS
                                then CONF_UNIT_SYSTEM_METRIC else CONF_UNIT_SYSTEM_IMPERIAL)]
              | None \<Rightarrow>
                  units (resolve_units cfg ?b) = units opp
                  \<and> units (auto_detect env (resolve_units cfg ?b))
                      = (case units opp of
                           Some u \<Rightarrow> Some u
                         | None \<Rightarrow>
                             (case async_detect_location_info env of
                                None \<Rightarrow> None
                              | Some info \<Rightarrow>
                                  Some (if info_use_metric info
                                        then METRIC_SYSTEM else IMPERIAL_SYSTEM)))
                  \<and> filter is_deprecation_warning
                        (core_log (auto_detect env (resolve_units cfg ?b)))
                      = filter is_deprecation_warning (core_log opp))"
    by (cases "map_of cfg CONF_UNIT_SYSTEM"; cases "map_of cfg CONF_TEMPERATURE_UNIT")
       (simp_all add: auto_detect_units resolve_units_def Let_def before_units)
  with a p show ?thesis by simp
qed

theorem unit_system_precedence_witness:
  "units (fst (async_process_ha_core_config
     \<lparr>CORE_CONFIG_SCHEMA = (\<lambda>v. case v of VDict d \<Rightarrow> Inr d | _ \<Rightarrow> Inl (Invalid ''expected a dictionary'')),
      get_time_zone = (\<lambda>v. case v of VStr s \<Rightarrow> Some s | _ \<Rightarrow> None),
      whitelist_and_customize = (\<lambda>cfg. None),
      async_detect_location_info = None,
      async_get_elevation = (\<lambda>la lo. VInt 0)\<rparr>
     \<lparr>auth = None, latitude = VNone, longitude = VNone, location_name = VNone, elevation = VNone,
      units = None, time_zone = None, default_time_zone = None, lookups = [], core_log = []\<rparr>
     (VDict [(''temperature_unit'', VStr ''F''), (''name'', VStr ''Home'')])
     VNone VNone)) = Some IMPERIAL_SYSTEM"
  using unit_system_precedence[of
     "\<lparr>CORE_CONFIG_SCHEMA = (\<lambda>v. case v of VDict d \<Rightarrow> Inr d | _ \<Rightarrow> Inl (Invalid ''expected a dictionary'')),
      get_time_zone = (\<lambda>v. case v of VStr s \<Rightarrow> Some s | _ \<Rightarrow> None),
      whitelist_and_customize = (\<lambda>cfg. None),
      async_detect_location_info = None,
      async_get_elevation = (\<lambda>la lo. VInt 0)\<rparr>"
     "VDict [(''temperature_unit'', VStr ''F''), (''name'', VStr ''Home'')]"
     "[(''temperature_unit'', VStr ''F''), (''name'', VStr ''Home'')]"
     "\<lparr>auth = None, latitude = VNone, longitude = VNone, location_name = VNone, elevation = VNone,
      units = None, time_zone = None, default_time_zone = None, lookups = [], core_log = []\<rparr>"
     VNone VNone]
  by (auto simp: CONF_UNIT_SYSTEM_def CONF_TEMPERATURE_UNIT_def TEMP_CELSIUS_def)

subsection \<open>Validation failures\<close>

lemma process_platforms_survivors:
  "process_platforms agi dname cps entries platforms opp = (opp', Inr ps)
   \<Longrightarrow> ps = platforms @ List.map_filter (surviving_entry agi dname cps) entries"
proof (induction entries arbitrary: platforms opp)
  case Nil
  then show ?case by (simp add: List.map_filter_simps)
next
  case (Cons e entries)
  obtain n c where e: "e = (n, c)" by (cases e)
  from Cons.prems show ?case unfolding e
    by (auto simp: List.map_filter_simps surviving_entry_def dest!: Cons.IH
        split: sum.splits py_error.splits option.splits)
qed

lemma process_platforms_no_invalid:
  "process_platforms agi dname cps entries platforms opp = (opp', Inl e)
   \<Longrightarrow> e \<noteq> Invalid m"
proof (induction entries arbitrary: platforms opp)
  case Nil
  then show ?case by simp
next
  case (Cons en entries)
  obtain n c where en: "en = (n, c)" by (cases en)
  from Cons.prems show ?case unfolding en
    by (auto dest!: Cons.IH split: sum.splits py_error.splits option.splits)
qed

lemma process_platforms_returns:
  assumes "\<And>x e. cps x = Inl e \<Longrightarrow> \<exists>m. e = Invalid m"
    and "\<And>name i p s x e. agi name = Some i \<Longrightarrow> get_platform i dname = Some p
           \<Longrightarrow> PLATFORM_SCHEMA p = Some s \<Longrightarrow> s x = Inl e \<Longrightarrow> \<exists>m. e = Invalid m"
  shows "\<exists>opp' ps. process_platforms agi dname cps entries platforms opp = (opp', Inr ps)"
proof (induction entries arbitrary: platforms opp)
  case Nil
  show ?case by simp
next
  case (Cons en entries)
  obtain n c where en: "en = (n, c)" by (cases en)
  show ?case unfolding en
    by (auto simp: Cons.IH split: sum.splits py_error.splits option.splits
        dest: assms(1) assms(2))
qed

lemma map_of_filter_keys:
  "map_of (filter (\<lambda>item. fst item \<notin> S) xs) k = (if k \<in> S then None else map_of xs k)"
  by (induction xs) auto

lemma async_log_exception_effect:
  "\<exists>errors. persistent_errors (async_log_exception ex d c opp) = Some errors
     \<and> map_of errors d = Some True
     \<and> error_log (async_log_exception ex d c opp) = error_log opp @ [(ex, d, c)]
     \<and> notifications (async_log_exception ex d c opp)
         = notifications opp
             @ [(setup_error_message errors, ''Invalid config'', ''invalid_config'')]"
  by (simp add: async_log_exception_def async_notify_setup_error_def Let_def update_conv')

text \<open>C4: \<^verbatim>\<open>async_process_component_config\<close> never lets a \<^verbatim>\<open>vol.Invalid\<close> escape.
  When the component has a \<^verbatim>\<open>CONFIG_SCHEMA\<close> and it rejects the configuration, the
  result is \<^verbatim>\<open>None\<close> and the error is reported: the exception is logged with the
  domain and the configuration, the domain is entered in the registry of setup
  errors with its documentation link, and one notification is created whose
  message lists the registry and holds the link of the domain. Under a platform
  schema, the returned configuration holds under the domain key exactly the
  validated forms of the surviving entries, in order; every other key that
  \<^verbatim>\<open>extract_domain_configs\<close> lists is removed and the remaining keys are kept.
  When the schemas raise nothing but \<^verbatim>\<open>vol.Invalid\<close>, a configuration is always
  returned.\<close>

theorem validation_failures_stay_inside:
  "snd (async_process_component_config agi cpp edc opp cfg integration) \<noteq> Inl (Invalid m')
   \<and> (get_component integration = Some component \<and> CONFIG_SCHEMA component = Some schema
        \<and> schema (VDict cfg) = Inl (Invalid m)
      \<longrightarrow> (\<exists>opp1 errors pre post.
             async_process_component_config agi cpp edc opp cfg integration = (opp1, Inr None)
             \<and> error_log opp1 = error_log opp @ [(Invalid m, domain integration, VDict cfg)]
             \<and> persistent_errors opp1 = Some errors
             \<and> map_of errors (domain integration) = Some True
             \<and> notifications opp1
                 = notifications opp
                     @ [(setup_error_message errors, ''Invalid config'', ''invalid_config'')]
             \<and> setup_error_message errors
                 = pre @ '' - ''
                     @ HA_COMPONENT_URL
                         (map (\<lambda>ch. if ch = CHR ''_'' then CHR ''-'' else ch)
                            (domain integration))
                         (domain integration)
                     @ [CHR 0x0A] @ post))
   \<and> (get_component integration = Some component \<and> CONFIG_SCHEMA component = None
        \<and> (case PLATFORM_SCHEMA_BASE component of
              Some base \<Rightarrow> Some base | None \<Rightarrow> PLATFORM_SCHEMA component) = Some cps
        \<and> async_process_component_config agi cpp edc opp cfg integration = (opp', Inr r)
      \<longrightarrow> (\<exists>cfg'. r = Some (VDict cfg')
             \<and> map_of cfg' (domain integration)
                 = Some (VList (List.map_filter
                                  (surviving_entry agi (domain integration) cps)
                                  (cpp cfg (domain integration))))
             \<and> (\<forall>k. k \<noteq> domain integration
                    \<longrightarrow> map_of cfg' k
                        = (if k \<in> set (edc cfg (domain integration)) then None
                           else map_of cfg k))))
   \<and> (get_component integration = Some component \<and> CONFIG_SCHEMA component = None
        \<and> (case PLATFORM_SCHEMA_BASE component of
              Some base \<Rightarrow> Some base | None \<Rightarrow> PLATFORM_SCHEMA component) = Some cps
        \<and> (\<forall>x e. cps x = Inl e \<longrightarrow> (\<exists>m. e = Invalid m))
        \<and> (\<forall>name i p s x e. agi name = Some i \<and> get_platform i (domain integration) = Some p
               \<and> PLATFORM_SCHEMA p = Some s \<and> s x = Inl e \<longrightarrow> (\<exists>m. e = Invalid m))
      \<longrightarrow> (\<exists>opp'' cfg'. async_process_component_config agi cpp edc opp cfg integration
                           = (opp'', Inr (Some (VDict cfg')))))"
proof (intro conjI impI)
  show "snd (async_process_component_config agi cpp edc opp cfg integration) \<noteq> Inl (Invalid m')"
    by (auto simp: async_process_component_config_def
        split: option.splits sum.splits py_error.splits prod.splits
        dest: process_platforms_no_invalid)
next
  assume a: "get_component integration = Some component \<and> CONFIG_SCHEMA component = Some schema
        \<and> schema (VDict cfg) = Inl (Invalid m)"
  let ?o = "async_log_exception (Invalid m) (domain integration) (VDict cfg) opp"
  from a have r: "async_process_component_config agi cpp edc opp cfg integration = (?o, Inr None)"
    by (simp add: async_process_component_config_def)
  from async_log_exception_effect[of "Invalid m" "domain integration" "VDict cfg" opp]
  obtain errors where e: "persistent_errors ?o = Some errors"
    "map_of errors (domain integration) = Some True"
    "error_log ?o = error_log opp @ [(Invalid m, domain integration, VDict cfg)]"
    "notifications ?o = notifications opp
        @ [(setup_error_message errors, ''Invalid config'', ''invalid_config'')]"
    by blast
  from message_contains_part[OF e(2)] obtain pre post where
    "setup_error_message errors
       = pre @ '' - '' @ error_part (domain integration, True) @ [CHR 0x0A] @ post" by blast
  then have "setup_error_message errors
                 = pre @ '' - ''
                     @ HA_COMPONENT_URL
                         (map (\<lambda>ch. if ch = CHR ''_'' then CHR ''-'' else ch)
                            (domain integration))
                         (domain integration)
                     @ [CHR 0x0A] @ post"
    by (simp add: error_part_def)
  with r e show "\<exists>opp1 errors pre post.
             async_process_component_config agi cpp edc opp cfg integration = (opp1, Inr None)
             \<and> error_log opp1 = error_log opp @ [(Invalid m, domain integration, VDict cfg)]
             \<and> persistent_errors opp1 = Some errors
             \<and> map_of errors (domain integration) = Some True
             \<and> notifications opp1
                 = notifications opp
                     @ [(setup_error_message errors, ''Invalid config'', ''invalid_config'')]
             \<and> setup_error_message errors
                 = pre @ '' - ''
                     @ HA_COMPONENT_URL
                         (map (\<lambda>ch. if ch = CHR ''_'' then CHR ''-'' else ch)
                            (domain integration))
                         (domain integration)
                     @ [CHR 0x0A] @ post"
    by blast
next
  assume a: "get_component integration = Some component \<and> CONFIG_SCHEMA component = None
        \<and> (case PLATFORM_SCHEMA_BASE component of
              Some base \<Rightarrow> Some base | None \<Rightarrow> PLATFORM_SCHEMA component) = Some cps
        \<and> async_process_component_config agi cpp edc opp cfg integration = (opp', Inr r)"
  then obtain ps where p: "process_platforms agi (domain integration) cps
        (cpp cfg (domain integration)) [] opp = (opp', Inr ps)"
    and r: "r = Some (VDict (AList.update (domain integration) (VList ps)
              (filter (\<lambda>item. fst item \<notin> set (edc cfg (domain integration))) cfg)))"
    by (auto simp: async_process_component_config_def split: prod.splits sum.splits)
  from process_platforms_survivors[OF p]
  have ps: "ps = List.map_filter (surviving_entry agi (domain integration) cps)
                   (cpp cfg (domain integration))" by simp
  show "\<exists>cfg'. r = Some (VDict cfg')
             \<and> map_of cfg' (domain integration)
                 = Some (VList (List.map_filter
                                  (surviving_entry agi (domain integration) cps)
                                  (cpp cfg (domain integration))))
             \<and> (\<forall>k. k \<noteq> domain integration
                    \<longrightarrow> map_of cfg' k
                        = (if k \<in> set (edc cfg (domain integration)) then None
                           else map_of cfg k))"
    unfolding r ps by (simp add: update_conv' map_of_filter_keys)
next
  assume a: "get_component integration = Some component \<and> CONFIG_SCHEMA component = None
        \<and> (case PLATFORM_SCHEMA_BASE component of
              Some base \<Rightarrow> Some base | None \<Rightarrow> PLATFORM_SCHEMA component) = Some cps
        \<and> (\<forall>x e. cps x = Inl e \<longrightarrow> (\<exists>m. e = Invalid m))
        \<and> (\<forall>name i p s x e. agi name = Some i \<and> get_platform i (domain integration) = Some p
               \<and> PLATFORM_SCHEMA p = Some s \<and> s x = Inl e \<longrightarrow> (\<exists>m. e = Invalid m))"
  have "\<exists>opp'' ps. process_platforms agi (domain integration) cps
          (cpp cfg (domain integration)) [] opp = (opp'', Inr ps)"
    by (rule process_platforms_returns) (use a in blast)+
  then show "\<exists>opp'' cfg'. async_process_component_config agi cpp edc opp cfg integration
                           = (opp'', Inr (Some (VDict cfg')))"
    using a by (auto simp: async_process_component_config_def)
qed

theorem validation_failures_stay_inside_witness:
  "async_process_component_config (\<lambda>n. None) (\<lambda>cfg d. []) (\<lambda>cfg d. [])
     \<lparr>persistent_errors = None, notifications = [], error_log = []\<rparr>
     [(''my_hub'', VInt 0)]
     \<lparr>domain = ''my_hub'',
      get_component = Some \<lparr>PLATFORM_SCHEMA = None, PLATFORM_SCHEMA_BASE = None,
                             CONFIG_SCHEMA = Some (\<lambda>v. Inl (Invalid ''expected a dictionary'')),
                             CONFIG_SCHEMA_domain_str = None\<rparr>,
      get_platform = (\<lambda>d. None)\<rparr>
   = (\<lparr>persistent_errors = Some [(''my_hub'', True)],
       notifications =
         [(''The following components and platforms could not be set up:\<newline>\<newline> - [my-hub](https://open-peer-power.io/components/my_hub/)\<newline>\<newline>Please check your config.'',
           ''Invalid config'', ''invalid_config'')],
       error_log = [(Invalid ''expected a dictionary'', ''my_hub'', VDict [(''my_hub'', VInt 0)])]\<rparr>,
      Inr None)
   \<and> async_process_component_config
     (\<lambda>n. if n = ''hue''
          then Some \<lparr>domain = ''hue'', get_component = None,
                     get_platform = (\<lambda>d. Some \<lparr>PLATFORM_SCHEMA = Some (\<lambda>v. Inl (Invalid ''bad'')),
                                                  PLATFORM_SCHEMA_BASE = None, CONFIG_SCHEMA = None,
                                                  CONFIG_SCHEMA_domain_str = None\<rparr>)\<rparr>
          else None)
     (\<lambda>cfg d. [(None, VInt 1), (Some ''hue'', VInt 2), (Some ''nowhere'', VInt 3)])
     (\<lambda>cfg d. [''light'', ''light two''])
     \<lparr>persistent_errors = None, notifications = [], error_log = []\<rparr>
     [(''light'', VInt 0), (''sun'', VNone), (''light two'', VInt 9)]
     \<lparr>domain = ''light'',
      get_component = Some \<lparr>PLATFORM_SCHEMA = Some Inr, PLATFORM_SCHEMA_BASE = None,
                             CONFIG_SCHEMA = None, CONFIG_SCHEMA_domain_str = None\<rparr>,
      get_platform = (\<lambda>d. None)\<rparr>
   = (\<lparr>persistent_errors = Some [(''light.hue'', True)],
       notifications =
         [(''The following components and platforms could not be set up:\<newline>\<newline> - [light.hue](https://open-peer-power.io/components/light.hue/)\<newline>\<newline>Please check your config.'',
           ''Invalid config'', ''invalid_config'')],
       error_log = [(Invalid ''bad'', ''light.hue'', VInt 2)]\<rparr>,
      Inr (Some (VDict [(''sun'', VNone), (''light'', VList [VInt 1])])))"
  using validation_failures_stay_inside[of "\<lambda>n. None" "\<lambda>cfg d. []" "\<lambda>cfg d. []"
     "\<lparr>persistent_errors = None, notifications = [], error_log = []\<rparr>"
     "[(''my_hub'', VInt 0)]"
     "\<lparr>domain = ''my_hub'',
      get_component = Some \<lparr>PLATFORM_SCHEMA = None, PLATFORM_SCHEMA_BASE = None,
                             CONFIG_SCHEMA = Some (\<lambda>v. Inl (Invalid ''expected a dictionary'')),
                             CONFIG_SCHEMA_domain_str = None\<rparr>,
      get_platform = (\<lambda>d. None)\<rparr>"]
  by (simp add: async_process_component_config_def async_log_exception_def
      async_notify_setup_error_def setup_error_message_def error_part_def HA_COMPONENT_URL_def
      Let_def)


section \<open>Two packages setting the same leaf\<close>

text \<open>C1, evaluated on a fresh configuration and two packages that set the same
  scalar leaves of \<open>http\<close>. With the single leaf \<open>port\<close> the second package is
  reported once, for \<open>port\<close>, and 1234 stays. With the leaves \<open>a\<close> and \<open>port\<close>
  in both packages, \<^verbatim>\<open>_recursive_merge\<close> returns at the conflict on \<open>a\<close>: the one
  error names \<open>a\<close> and none is reported for \<open>port\<close>. With the leaf \<open>port\<close> inside
  a nested dictionary that is followed by another nested dictionary, the
  conflict found in the first is overwritten in the variable \<open>error\<close> by the
  result of the second, and no error is reported at all. The first value is
  retained in the three cases.\<close>

theorem later_conflicts_of_a_fragment_are_not_reported:
  "merge_packages_config http_integrations []
       (VDict [(''pkg1'', VDict [(''http'', VDict [(''port'', VInt 1234)])]),
               (''pkg2'', VDict [(''http'', VDict [(''port'', VInt 5678)])])])
       (\<lambda>p c cfg m. None)
     = (\<lparr>config = [(''http'', VDict [(''port'', VInt 1234)])],
         pkg_errors = [(''pkg2'', ''http'', ''has duplicate key '' @ [CHR 0x27] @ ''port'' @ [CHR 0x27])]\<rparr>,
        None)
   \<and> merge_packages_config http_integrations []
       (VDict [(''pkg1'', VDict [(''http'', VDict [(''a'', VInt 1), (''port'', VInt 1234)])]),
               (''pkg2'', VDict [(''http'', VDict [(''a'', VInt 2), (''port'', VInt 5678)])])])
       (\<lambda>p c cfg m. None)
     = (\<lparr>config = [(''http'', VDict [(''a'', VInt 1), (''port'', VInt 1234)])],
         pkg_errors = [(''pkg2'', ''http'', ''has duplicate key '' @ [CHR 0x27] @ ''a'' @ [CHR 0x27])]\<rparr>,
        None)
   \<and> merge_packages_config http_integrations []
       (VDict [(''pkg1'', VDict [(''http'', VDict [(''server'', VDict [(''port'', VInt 1234)]),
                                                    (''cors'', VDict [(''origin'', VStr ''a'')])])]),
               (''pkg2'', VDict [(''http'', VDict [(''server'', VDict [(''port'', VInt 5678)]),
                                                    (''cors'', VDict [(''age'', VInt 1)])])])])
       (\<lambda>p c cfg m. None)
     = (\<lparr>config = [(''http'', VDict [(''server'', VDict [(''port'', VInt 1234)]),
                                      (''cors'', VDict [(''origin'', VStr ''a''), (''age'', VInt 1)])])],
         pkg_errors = []\<rparr>,
        None)"
  by (simp add: recursive_merge_def dict_get_def merge_packages_config_def
      PACKAGES_CONFIG_SCHEMA_def is_slug_def merge_component_def merge_dict_entry_def
      log_pkg_error_def identify_config_schema_def CONF_CORE_def Let_def http_integrations_def)

end
